theory Spec2Isabelle
  imports Complex_Main "HOL-Library.List_Lexorder" "HOL-Library.Multiset"
begin

section \<open>Python values\<close>

text \<open>
  The payloads of \<^verbatim>\<open>process_bank_statement.py\<close> are what \<^verbatim>\<open>json.loads\<close> returns:
  \<^verbatim>\<open>None\<close>, booleans, integers, floats, strings, lists and dictionaries with string keys.
  A dictionary is an association list in insertion order; a lookup takes the first entry
  of a key (a Python dictionary holds a key once).

  A Python string is a sequence of Unicode code points, and it is modelled as the list of
  them, so that a position or a length counts code points. \<open>ascii\<close> embeds a literal of
  ASCII characters, each character as its code, and the order of strings is the
  lexicographic order of the lists, as in Python.

  The type \<open>'f\<close> stands for Python's \<^verbatim>\<open>float\<close>, read up to \<^verbatim>\<open>==\<close>. What the interpreter
  computes on floats (\<^verbatim>\<open>float(s)\<close>, \<^verbatim>\<open>str(x)\<close>, arithmetic, \<^verbatim>\<open>round\<close>, formatting) and what its
  Unicode database says about the code points above 127 (which of them are decimal digits
  and of what value, which are white space, which are printable, and what \<^verbatim>\<open>str.lower\<close>
  makes of a string that holds one of them) is not code of this repository: the model
  takes it as the parameter \<open>P\<close>, a record of operations, and every general theorem below
  holds for every such record. On the code points up to 127 the classes are fixed by the
  definitions below.
\<close>

type_synonym ustring = "nat list"

definition ascii :: "string \<Rightarrow> ustring" where
  "ascii s = map of_char s"

datatype 'f json =
    JNull
  | JBool bool
  | JInt int
  | JFloat 'f
  | JStr ustring
  | JList "'f json list"
  | JObj "(ustring \<times> 'f json) list"

datatype pyerror = TypeError | AttributeError | FileNotFoundError ustring

record 'f py_ops =
  float_of_str :: "ustring \<Rightarrow> 'f option"
    \<comment> \<open>\<^verbatim>\<open>float(s)\<close>; \<open>None\<close> where it raises \<^verbatim>\<open>ValueError\<close>\<close>
  str_of_float :: "'f \<Rightarrow> ustring"
    \<comment> \<open>\<^verbatim>\<open>str(x)\<close> of a float\<close>
  float_is_zero :: "'f \<Rightarrow> bool"
    \<comment> \<open>\<^verbatim>\<open>x == 0\<close>: a float is falsy exactly then\<close>
  float_literal :: "string \<Rightarrow> 'f"
    \<comment> \<open>the value of a float literal of the program text, such as \<^verbatim>\<open>0.0\<close>\<close>
  float_add :: "'f \<Rightarrow> 'f \<Rightarrow> 'f"
  float_div :: "'f \<Rightarrow> 'f \<Rightarrow> 'f"
  float_round :: "'f \<Rightarrow> nat \<Rightarrow> 'f"
    \<comment> \<open>\<^verbatim>\<open>round(x, n)\<close>\<close>
  float_gt :: "'f \<Rightarrow> 'f \<Rightarrow> bool"
  format_2f :: "'f \<Rightarrow> ustring"
    \<comment> \<open>the format specification \<^verbatim>\<open>,.2f\<close>\<close>
  unicode_decimal :: "nat \<Rightarrow> nat option"
    \<comment> \<open>the decimal value of a code point above 127; it is a decimal digit (what \<^verbatim>\<open>\d\<close>
        matches and \<^verbatim>\<open>int\<close> reads) when this is a value below ten\<close>
  unicode_space :: "nat \<Rightarrow> bool"
    \<comment> \<open>\<^verbatim>\<open>str.isspace\<close> of a code point above 127\<close>
  unicode_printable :: "nat \<Rightarrow> bool"
    \<comment> \<open>\<^verbatim>\<open>str.isprintable\<close> of a code point above 127\<close>
  unicode_lower :: "ustring \<Rightarrow> ustring"
    \<comment> \<open>\<^verbatim>\<open>str.lower\<close> of a string that holds a code point above 127 (the mapping depends on
        the context of a character and may give several code points for one)\<close>

subsection \<open>Characters and strings\<close>

text \<open>The decimal digits: \<^verbatim>\<open>0\<close> to \<^verbatim>\<open>9\<close>, and above 127 what the Unicode database says.\<close>

definition is_digit :: "'f py_ops \<Rightarrow> nat \<Rightarrow> bool" where
  "is_digit P c =
     (if c < 128 then 48 \<le> c \<and> c \<le> 57
      else case unicode_decimal P c of None \<Rightarrow> False | Some d \<Rightarrow> d < 10)"

definition digit_val :: "'f py_ops \<Rightarrow> nat \<Rightarrow> nat" where
  "digit_val P c =
     (if c < 128 then c - 48 else case unicode_decimal P c of None \<Rightarrow> 0 | Some d \<Rightarrow> d)"

text \<open>The digits \<^verbatim>\<open>0\<close> to \<^verbatim>\<open>9\<close> alone: what the conversions to text write.\<close>

definition is_digit09 :: "nat \<Rightarrow> bool" where
  "is_digit09 c = (48 \<le> c \<and> c \<le> 57)"

text \<open>\<^verbatim>\<open>str.isspace\<close>, which is also the class \<^verbatim>\<open>\s\<close> and what \<^verbatim>\<open>str.strip\<close> removes. Up to 127:
  tab to carriage return, the four separators \<^verbatim>\<open>\x1c\<close> to \<^verbatim>\<open>\x1f\<close>, and the space.\<close>

definition is_space :: "'f py_ops \<Rightarrow> nat \<Rightarrow> bool" where
  "is_space P c =
     (if c < 128 then (9 \<le> c \<and> c \<le> 13) \<or> (28 \<le> c \<and> c \<le> 32) else unicode_space P c)"

text \<open>\<^verbatim>\<open>str.lower\<close>: on a string of ASCII characters it maps \<^verbatim>\<open>A\<close> to \<^verbatim>\<open>Z\<close> to \<^verbatim>\<open>a\<close> to \<^verbatim>\<open>z\<close>.\<close>

definition lower_ascii :: "nat \<Rightarrow> nat" where
  "lower_ascii c = (if 65 \<le> c \<and> c \<le> 90 then c + 32 else c)"

definition lower :: "'f py_ops \<Rightarrow> ustring \<Rightarrow> ustring" where
  "lower P s = (if list_all (\<lambda>c. c < 128) s then map lower_ascii s else unicode_lower P s)"

definition strip :: "'f py_ops \<Rightarrow> ustring \<Rightarrow> ustring" where
  "strip P s = rev (dropWhile (is_space P) (rev (dropWhile (is_space P) s)))"

text \<open>\<^verbatim>\<open>sub in s\<close> for strings.\<close>

fun contains :: "ustring \<Rightarrow> ustring \<Rightarrow> bool" where
  "contains sub [] = (sub = [])"
| "contains sub (c # cs) = (take (length sub) (c # cs) = sub \<or> contains sub cs)"

definition digit_char :: "nat \<Rightarrow> nat" where
  "digit_char n = 48 + n"

fun digits_of :: "nat \<Rightarrow> ustring" where
  "digits_of n = (if n < 10 then [digit_char n] else digits_of (n div 10) @ [digit_char (n mod 10)])"

declare digits_of.simps [simp del]

text \<open>\<^verbatim>\<open>str(i)\<close> of an integer.\<close>

definition str_of_int :: "int \<Rightarrow> ustring" where
  "str_of_int i = (if i < 0 then ascii ''-'' @ digits_of (nat (- i)) else digits_of (nat i))"

text \<open>\<^verbatim>\<open>int(s)\<close> as the program uses it: on a run of digits that \<^verbatim>\<open>\d\<close> has matched, or on
  \<^verbatim>\<open>None\<close> (a group that took no part in the match), where it raises.\<close>

definition py_int :: "'f py_ops \<Rightarrow> ustring option \<Rightarrow> int option" where
  "py_int P g = (case g of
      None \<Rightarrow> None
    | Some s \<Rightarrow> if s \<noteq> [] \<and> list_all (is_digit P) s
                then Some (int (foldl (\<lambda>a c. 10 * a + digit_val P c) 0 s)) else None)"

text \<open>The format specification \<^verbatim>\<open>0wd\<close> of an integer: zero padding to width \<open>w\<close>, the sign
  first.\<close>

definition zero_pad :: "nat \<Rightarrow> ustring \<Rightarrow> ustring" where
  "zero_pad w s = replicate (w - length s) 48 @ s"

definition format_0d :: "nat \<Rightarrow> int \<Rightarrow> ustring" where
  "format_0d w i = (if i < 0 then ascii ''-'' @ zero_pad (w - 1) (digits_of (nat (- i)))
                    else zero_pad w (digits_of (nat i)))"

subsection \<open>Truthiness, \<^verbatim>\<open>or\<close>, \<^verbatim>\<open>dict.get\<close>, \<^verbatim>\<open>str\<close>\<close>

fun truthy :: "'f py_ops \<Rightarrow> 'f json \<Rightarrow> bool" where
  "truthy P JNull = False"
| "truthy P (JBool b) = b"
| "truthy P (JInt i) = (i \<noteq> 0)"
| "truthy P (JFloat x) = (\<not> float_is_zero P x)"
| "truthy P (JStr s) = (s \<noteq> [])"
| "truthy P (JList xs) = (xs \<noteq> [])"
| "truthy P (JObj kvs) = (kvs \<noteq> [])"

definition py_or :: "'f py_ops \<Rightarrow> 'f json \<Rightarrow> 'f json \<Rightarrow> 'f json" where
  "py_or P a b = (if truthy P a then a else b)"

definition dict_get :: "(ustring \<times> 'f json) list \<Rightarrow> ustring \<Rightarrow> 'f json" where
  "dict_get d k = (case map_of d k of None \<Rightarrow> JNull | Some v \<Rightarrow> v)"

definition hex_digit :: "nat \<Rightarrow> nat" where
  "hex_digit n = (if n < 10 then 48 + n else 87 + n)"

text \<open>The \<open>w\<close> hexadecimal digits of \<open>n\<close>, the most significant first.\<close>

definition hex_digits :: "nat \<Rightarrow> nat \<Rightarrow> ustring" where
  "hex_digits w n = map (\<lambda>i. hex_digit (n div 16 ^ i mod 16)) (rev [0..<w])"

text \<open>\<^verbatim>\<open>repr\<close> of a string: single quotes unless the string holds a single quote and no
  double quote; the quote and the backslash (code point 92) escaped, tab, newline and
  carriage return by their letters, the other control characters up to 127 as \<^verbatim>\<open>\xhh\<close>; a
  code point above 127 stands for itself when it is printable and is escaped as \<^verbatim>\<open>\xhh\<close>,
  \<^verbatim>\<open>\uhhhh\<close> or \<^verbatim>\<open>\Uhhhhhhhh\<close> when it is not.\<close>

definition repr_char :: "'f py_ops \<Rightarrow> nat \<Rightarrow> nat \<Rightarrow> ustring" where
  "repr_char P q c =
     (if c = q \<or> c = 92 then [92, c]
      else if c = 9 then 92 # ascii ''t''
      else if c = 10 then 92 # ascii ''n''
      else if c = 13 then 92 # ascii ''r''
      else if c < 32 \<or> c = 127 then 92 # ascii ''x'' @ hex_digits 2 c
      else if c < 128 then [c]
      else if unicode_printable P c then [c]
      else if c < 256 then 92 # ascii ''x'' @ hex_digits 2 c
      else if c < 65536 then 92 # ascii ''u'' @ hex_digits 4 c
      else 92 # ascii ''U'' @ hex_digits 8 c)"

definition repr_str :: "'f py_ops \<Rightarrow> ustring \<Rightarrow> ustring" where
  "repr_str P s =
     (let q = (if 39 \<in> set s \<and> 34 \<notin> set s then 34 else 39)
      in q # concat (map (repr_char P q) s) @ [q])"

text \<open>\<^verbatim>\<open>", ".join(xs)\<close>.\<close>

fun join_comma :: "ustring list \<Rightarrow> ustring" where
  "join_comma [] = []"
| "join_comma [x] = x"
| "join_comma (x # y # ys) = x @ ascii '', '' @ join_comma (y # ys)"

fun py_repr :: "'f py_ops \<Rightarrow> 'f json \<Rightarrow> ustring" where
  "py_repr P JNull = ascii ''None''"
| "py_repr P (JBool b) = (if b then ascii ''True'' else ascii ''False'')"
| "py_repr P (JInt i) = str_of_int i"
| "py_repr P (JFloat x) = str_of_float P x"
| "py_repr P (JStr s) = repr_str P s"
| "py_repr P (JList xs) = ascii ''['' @ join_comma (map (py_repr P) xs) @ ascii '']''"
| "py_repr P (JObj kvs) =
     ascii ''{''
     @ join_comma (map (\<lambda>kv. repr_str P (fst kv) @ ascii '': '' @ py_repr P (snd kv)) kvs)
     @ ascii ''}''"

definition py_str :: "'f py_ops \<Rightarrow> 'f json \<Rightarrow> ustring" where
  "py_str P x = (case x of JStr s \<Rightarrow> s | _ \<Rightarrow> py_repr P x)"

section \<open>Regular expressions\<close>

text \<open>
  Python's \<^verbatim>\<open>re\<close> is a backtracking matcher: alternatives are tried left to right, a
  greedy quantifier tries its longest run first, and the first way that lets the whole
  pattern match is the match. The model computes the list of all ways a pattern can
  match at a position, in the order the matcher would try them; the head of the list is
  the match. Every quantifier of the program's patterns stands on a character class, so
  repetition is defined for classes only. The patterns are patterns of strings, so
  \<^verbatim>\<open>\d\<close> and \<^verbatim>\<open>\s\<close> are the Unicode classes, and a position is a code point.
\<close>

datatype cclass =
    Digit            \<comment> \<open>\<^verbatim>\<open>\d\<close>\<close>
  | Space            \<comment> \<open>\<^verbatim>\<open>\s\<close>\<close>
  | Dot              \<comment> \<open>\<^verbatim>\<open>.\<close>: every character but the newline\<close>
  | OneOf ustring    \<comment> \<open>\<^verbatim>\<open>[...]\<close>\<close>
  | DigitOr ustring  \<comment> \<open>\<^verbatim>\<open>[\d...]\<close>\<close>
  | NoneOf ustring   \<comment> \<open>\<^verbatim>\<open>[^...]\<close>\<close>

fun cc_match :: "'f py_ops \<Rightarrow> cclass \<Rightarrow> nat \<Rightarrow> bool" where
  "cc_match P Digit c = is_digit P c"
| "cc_match P Space c = is_space P c"
| "cc_match P Dot c = (c \<noteq> 10)"
| "cc_match P (OneOf cs) c = (c \<in> set cs)"
| "cc_match P (DigitOr cs) c = (is_digit P c \<or> c \<in> set cs)"
| "cc_match P (NoneOf cs) c = (c \<notin> set cs)"

datatype regex =
    Rep cclass nat "nat option"  \<comment> \<open>a class repeated greedily, \<^verbatim>\<open>c{lo,hi}\<close>; no upper bound is \<open>None\<close>\<close>
  | Lit ustring                  \<comment> \<open>a literal\<close>
  | Cat regex regex
  | Alt regex regex
  | Grp nat regex                \<comment> \<open>a capturing group and its number\<close>

type_synonym caps = "nat \<rightharpoonup> (nat \<times> nat)"

fun run :: "'f py_ops \<Rightarrow> regex \<Rightarrow> ustring \<Rightarrow> nat \<Rightarrow> caps \<Rightarrow> (nat \<times> caps) list" where
  "run P (Rep c lo hi) s p cs =
     (let n = length (takeWhile (cc_match P c) (drop p s));
          m = (case hi of None \<Rightarrow> n | Some h \<Rightarrow> min h n)
      in map (\<lambda>k. (p + k, cs)) (rev [lo..<Suc m]))"
| "run P (Lit w) s p cs = (if take (length w) (drop p s) = w then [(p + length w, cs)] else [])"
| "run P (Cat a b) s p cs = concat (map (\<lambda>(q, cs'). run P b s q cs') (run P a s p cs))"
| "run P (Alt a b) s p cs = run P a s p cs @ run P b s p cs"
| "run P (Grp i a) s p cs = map (\<lambda>(q, cs'). (q, cs'(i \<mapsto> (p, q)))) (run P a s p cs)"

declare run.simps [simp del]

text \<open>\<^verbatim>\<open>pattern.search(s, pos)\<close>: the first position from \<open>p\<close> on at which the pattern
  matches, with the end of the match and the groups.\<close>

function search_from ::
  "'f py_ops \<Rightarrow> regex \<Rightarrow> ustring \<Rightarrow> nat \<Rightarrow> (nat \<times> nat \<times> caps) option"
where
  "search_from P r s p =
     (if length s < p then None
      else case run P r s p Map.empty of
             [] \<Rightarrow> search_from P r s (Suc p)
           | (e, cs) # _ \<Rightarrow> Some (p, e, cs))"
  by pat_completeness auto
termination
  by (relation "measure (\<lambda>(P, r, s, p). Suc (length s) - p)") auto

declare search_from.simps [simp del]

definition search :: "'f py_ops \<Rightarrow> regex \<Rightarrow> ustring \<Rightarrow> (nat \<times> nat \<times> caps) option" where
  "search P r s = search_from P r s 0"

text \<open>\<^verbatim>\<open>pattern.finditer(s)\<close>: the matches from left to right, each search starting where
  the match before it ended. After an empty match the scan moves one character on (none
  of the patterns this is used with matches the empty string).\<close>

function finditer_from ::
  "'f py_ops \<Rightarrow> regex \<Rightarrow> ustring \<Rightarrow> nat \<Rightarrow> (nat \<times> nat \<times> caps) list"
where
  "finditer_from P r s p =
     (case search_from P r s p of
        None \<Rightarrow> []
      | Some (st, e, cs) \<Rightarrow> (st, e, cs) # finditer_from P r s (if st < e then e else Suc st))"
  by pat_completeness auto
termination
proof (relation "measure (\<lambda>(P, r, s, p). Suc (length s) - p)")
  show "wf (measure (\<lambda>(P :: 'a py_ops, r :: regex, s :: ustring, p). Suc (length s) - p))"
    by simp
next
  fix P :: "'a py_ops" and r :: regex and s :: ustring and p :: nat and x2 st y e cs
  assume found: "search_from P r s p = Some x2" "(st, y) = x2" "(e, cs) = y"
  have bounds: "search_from P r s q = Some (a, b) \<Longrightarrow> q \<le> a \<and> a \<le> length s" for q a b
  proof (induction P r s q rule: search_from.induct)
    case (1 P r s q)
    show ?case
    proof (cases "length s < q")
      case True
      with "1.prems" show ?thesis
        by (simp add: search_from.simps [of P r s q])
    next
      case False
      show ?thesis
      proof (cases "run P r s q Map.empty")
        case Nil
        with False "1.prems" have "search_from P r s (Suc q) = Some (a, b)"
          by (simp add: search_from.simps [of P r s q])
        with "1.IH" [OF False Nil] show ?thesis
          by simp
      next
        case (Cons m ms)
        with False "1.prems" show ?thesis
          by (cases m) (simp add: search_from.simps [of P r s q])
      qed
    qed
  qed
  from found have "search_from P r s p = Some (st, e, cs)"
    by simp
  from bounds [OF this] have "p \<le> st" "st \<le> length s"
    by simp_all
  then show "((P, r, s, if st < e then e else Suc st), P, r, s, p)
      \<in> measure (\<lambda>(P, r, s, p). Suc (length s) - p)"
    by auto
qed

declare finditer_from.simps [simp del]

definition finditer :: "'f py_ops \<Rightarrow> regex \<Rightarrow> ustring \<Rightarrow> (nat \<times> nat \<times> caps) list" where
  "finditer P r s = finditer_from P r s 0"

text \<open>\<^verbatim>\<open>m.group(i)\<close>: the text of a group, \<open>None\<close> when the group took no part in the match;
  and \<^verbatim>\<open>m.string[m.start():m.end()]\<close>.\<close>

definition slice :: "ustring \<Rightarrow> nat \<Rightarrow> nat \<Rightarrow> ustring" where
  "slice s a b = take (b - a) (drop a s)"

definition m_group :: "ustring \<Rightarrow> caps \<Rightarrow> nat \<Rightarrow> ustring option" where
  "m_group s cs i = (case cs i of None \<Rightarrow> None | Some (a, b) \<Rightarrow> Some (slice s a b))"

text \<open>\<^verbatim>\<open>pattern.sub("", s)\<close>: the text with every match cut out.\<close>

fun cut_matches :: "ustring \<Rightarrow> nat \<Rightarrow> (nat \<times> nat \<times> caps) list \<Rightarrow> ustring" where
  "cut_matches s p [] = drop p s"
| "cut_matches s p ((st, e, cs) # ms) = slice s p st @ cut_matches s e ms"

definition sub_empty :: "'f py_ops \<Rightarrow> regex \<Rightarrow> ustring \<Rightarrow> ustring" where
  "sub_empty P r s = cut_matches s 0 (finditer P r s)"

text \<open>\<^verbatim>\<open>re.findall\<close> for a pattern without groups: the texts of the matches.\<close>

definition findall :: "'f py_ops \<Rightarrow> regex \<Rightarrow> ustring \<Rightarrow> ustring list" where
  "findall P r s = map (\<lambda>(st, e, cs). slice s st e) (finditer P r s)"

subsection \<open>The patterns of the program\<close>

text \<open>The currency signs of \<^verbatim>\<open>CURRENCY_PATTERN\<close>: the rupee sign U+20B9, the dollar, the euro
  sign U+20AC and the pound sign U+00A3.\<close>

definition rupee :: nat where
  "rupee = 0x20B9"

definition currency_signs :: ustring where
  "currency_signs = [rupee, 0x24, 0x20AC, 0xA3]"

text \<open>\<^verbatim>\<open>[...]\s?\<close> over the four signs.\<close>

definition CURRENCY_PATTERN :: regex where
  "CURRENCY_PATTERN = Cat (Rep (OneOf currency_signs) 1 (Some 1)) (Rep Space 0 (Some 1))"

text \<open>\<^verbatim>\<open>[^0-9.\-]\<close>\<close>

definition NON_NUMERIC :: regex where
  "NON_NUMERIC = Rep (NoneOf (ascii ''0123456789.-'')) 1 (Some 1)"

definition date_sep :: regex where
  "date_sep = Rep (OneOf (ascii ''-/'')) 1 (Some 1)"

text \<open>\<^verbatim>\<open>(\d{4})[-/](\d{1,2})[-/](\d{1,2})|(?:(\d{1,2})[-/](\d{1,2})[-/](\d{4}))\<close>\<close>

definition DATE_GUESS :: regex where
  "DATE_GUESS =
     Alt (Cat (Grp 1 (Rep Digit 4 (Some 4)))
            (Cat date_sep (Cat (Grp 2 (Rep Digit 1 (Some 2)))
              (Cat date_sep (Grp 3 (Rep Digit 1 (Some 2)))))))
         (Cat (Grp 4 (Rep Digit 1 (Some 2)))
            (Cat date_sep (Cat (Grp 5 (Rep Digit 1 (Some 2)))
              (Cat date_sep (Grp 6 (Rep Digit 4 (Some 4)))))))"

text \<open>\<^verbatim>\<open>(?P<date>\d{1,2}[-/]\d{1,2}[-/]\d{2,4}|\d{4}[-/]\d{1,2}[-/]\d{1,2}).{1,120}(?P<amt>[-]?\d[\d,]*\.?\d{0,2})\<close>:
  the group \<^verbatim>\<open>date\<close> is group 1 and \<^verbatim>\<open>amt\<close> is group 2.\<close>

definition TXN_LINE_RE :: regex where
  "TXN_LINE_RE =
     Cat (Grp 1
            (Alt (Cat (Rep Digit 1 (Some 2))
                    (Cat date_sep (Cat (Rep Digit 1 (Some 2)) (Cat date_sep (Rep Digit 2 (Some 4))))))
                 (Cat (Rep Digit 4 (Some 4))
                    (Cat date_sep (Cat (Rep Digit 1 (Some 2)) (Cat date_sep (Rep Digit 1 (Some 2))))))))
       (Cat (Rep Dot 1 (Some 120))
          (Grp 2
             (Cat (Rep (OneOf (ascii ''-'')) 0 (Some 1))
                (Cat (Rep Digit 1 (Some 1))
                   (Cat (Rep (DigitOr (ascii '','')) 0 None)
                      (Cat (Rep (OneOf (ascii ''.'')) 0 (Some 1)) (Rep Digit 0 (Some 2))))))))"

section \<open>Value normalizers\<close>

text \<open>\<^verbatim>\<open>_to_float\<close>. The substitution function given to \<^verbatim>\<open>NON_NUMERIC.sub\<close> returns the empty
  string in both of its branches; \<^verbatim>\<open>replace(",", "")\<close> removes the commas (code point 44).\<close>

definition to_float :: "'f py_ops \<Rightarrow> 'f json \<Rightarrow> 'f option" where
  "to_float P x =
     (case x of
        JNull \<Rightarrow> None
      | _ \<Rightarrow>
          let s = py_str P x;
              s = filter (\<lambda>c. c \<noteq> 44) (sub_empty P CURRENCY_PATTERN s);
              s = sub_empty P NON_NUMERIC s
          in float_of_str P s)"

text \<open>\<^verbatim>\<open>_normalize_date\<close> on a string that is not empty: the part of the function after its
  first test.\<close>

definition group_truthy :: "ustring option \<Rightarrow> bool" where
  "group_truthy g = (case g of None \<Rightarrow> False | Some t \<Rightarrow> t \<noteq> [])"

definition normalize_date_str :: "'f py_ops \<Rightarrow> ustring \<Rightarrow> ustring" where
  "normalize_date_str P s =
     (case search P DATE_GUESS s of
        None \<Rightarrow> s
      | Some (st, e, cs) \<Rightarrow>
          let (y, mm, dd) =
                (if group_truthy (m_group s cs 1)
                 then (m_group s cs 1, m_group s cs 2, m_group s cs 3)
                 else (m_group s cs 6, m_group s cs 5, m_group s cs 4))
          in case (py_int P y, py_int P mm, py_int P dd) of
               (Some yi, Some mi, Some di) \<Rightarrow>
                 format_0d 4 yi @ ascii ''-'' @ format_0d 2 mi @ ascii ''-'' @ format_0d 2 di
             | _ \<Rightarrow> s)"

text \<open>\<^verbatim>\<open>_normalize_date\<close>: a falsy argument gives \<^verbatim>\<open>None\<close>; \<^verbatim>\<open>DATE_GUESS.search\<close> raises
  \<^verbatim>\<open>TypeError\<close> on an argument that is not a string, outside the function's \<^verbatim>\<open>try\<close>.\<close>

definition normalize_date :: "'f py_ops \<Rightarrow> 'f json \<Rightarrow> pyerror + ustring option" where
  "normalize_date P s =
     (if \<not> truthy P s then Inr None
      else case s of
             JStr t \<Rightarrow> Inr (Some (normalize_date_str P t))
           | _ \<Rightarrow> Inl TypeError)"

text \<open>\<^verbatim>\<open>_mask_account\<close>.\<close>

definition mask_account :: "'f py_ops \<Rightarrow> 'f json \<Rightarrow> 'f json" where
  "mask_account P v =
     (if \<not> truthy P v then v
      else let digits = findall P (Rep Digit 1 (Some 1)) (py_str P v)
           in if length digits < 4 then v
              else JStr (ascii ''XXXX-XXXX-XXXX-'' @ concat (drop (length digits - 4) digits)))"

section \<open>Heuristic text extractor\<close>

definition json_of_group :: "ustring option \<Rightarrow> 'f json" where
  "json_of_group g = (case g of None \<Rightarrow> JNull | Some t \<Rightarrow> JStr t)"

text \<open>The loop of \<^verbatim>\<open>_local_parse_text_for_txns\<close> over the matches, \<open>txns\<close> being the list built
  so far.\<close>

fun parse_matches ::
  "'f py_ops \<Rightarrow> ustring \<Rightarrow> (nat \<times> nat \<times> caps) list \<Rightarrow> 'f json list \<Rightarrow> pyerror + 'f json list"
where
  "parse_matches P text [] txns = Inr txns"
| "parse_matches P text ((st, e, cs) # ms) txns =
     (case normalize_date P (json_of_group (m_group text cs 1)) of
        Inl err \<Rightarrow> Inl err
      | Inr date \<Rightarrow>
          let amt = to_float P (json_of_group (m_group text cs 2));
              desc = slice text st e
          in case (date, amt) of
               (Some d, Some a) \<Rightarrow>
                 if d \<noteq> []
                 then parse_matches P text ms
                        (txns @ [JObj [(ascii ''date'', JStr d),
                                       (ascii ''description'', JStr (strip P desc)),
                                       (ascii ''amount'', JFloat a), (ascii ''balance'', JNull),
                                       (ascii ''category'', JNull)]])
                 else parse_matches P text ms txns
             | _ \<Rightarrow> parse_matches P text ms txns)"

definition local_parse_text_for_txns :: "'f py_ops \<Rightarrow> ustring \<Rightarrow> pyerror + 'f json list" where
  "local_parse_text_for_txns P text = parse_matches P text (finditer P TXN_LINE_RE text) []"

section \<open>Shape coercer\<close>

definition is_dict :: "'f json \<Rightarrow> bool" where
  "is_dict x = (case x of JObj d \<Rightarrow> True | _ \<Rightarrow> False)"

definition empty_shape :: "(ustring \<times> 'f json) list" where
  "empty_shape =
     [(ascii ''Account Info'', JObj []), (ascii ''Summary Values'', JObj []),
      (ascii ''Transactions'', JList [])]"

text \<open>\<^verbatim>\<open>_coerce_extracted\<close>; the dictionary it returns is the association list.\<close>

definition coerce_extracted :: "'f py_ops \<Rightarrow> 'f json \<Rightarrow> (ustring \<times> 'f json) list" where
  "coerce_extracted P data0 =
     (let data = (case data0 of
                    JObj d \<Rightarrow> if ascii ''fields'' \<in> set (map fst d) \<and> is_dict (dict_get d (ascii ''fields''))
                              then dict_get d (ascii ''fields'') else data0
                  | _ \<Rightarrow> data0)
      in case data of
           JObj d \<Rightarrow>
             [(ascii ''Account Info'',
                 py_or P (py_or P (dict_get d (ascii ''Account Info'')) (dict_get d (ascii ''account_info'')))
                   (JObj [])),
              (ascii ''Summary Values'',
                 py_or P (py_or P (dict_get d (ascii ''Summary Values'')) (dict_get d (ascii ''summary_values'')))
                   (JObj [])),
              (ascii ''Transactions'',
                 py_or P (py_or P (dict_get d (ascii ''Transactions'')) (dict_get d (ascii ''transactions'')))
                   (JList []))]
         | JList xs \<Rightarrow>
             (case xs of
                [] \<Rightarrow> empty_shape
              | x # _ \<Rightarrow>
                  if is_dict x
                  then [(ascii ''Account Info'', JObj []), (ascii ''Summary Values'', JObj []),
                        (ascii ''Transactions'', data)]
                  else empty_shape)
         | _ \<Rightarrow> empty_shape)"

section \<open>Reconciliation engine\<close>

record 'f txn =
  date :: ustring
  description :: ustring
  amount :: 'f
  balance :: "'f option"
  category :: "'f json"

record 'f account_info =
  bank_name :: "'f json"
  account_holder_name :: "'f json"
  account_number :: "'f json"
  statement_month :: "'f json"
  account_type :: "'f json"

record 'f summary_values =
  opening_balance :: "'f option"
  closing_balance :: "'f option"
  total_credits :: "'f option"
  total_debits :: "'f option"
  average_daily_balance :: "'f option"

record 'f fields =
  Account_Info :: "'f account_info"
  Summary_Values :: "'f summary_values"
  Transactions :: "'f txn list"

record 'f Quality =
  ocr_confidence :: "'f option"
  page_rotation_warnings :: bool
  missing_sections :: "ustring list"
  duplicate_entries :: bool
  gemini_used :: bool
  gemini_error :: "ustring option"
  quality_notes :: "ustring list"  \<comment> \<open>the field \<^verbatim>\<open>notes\<close>, a keyword here\<close>

text \<open>\<^verbatim>\<open>for t in raw_txns\<close>: a list gives its elements, a string its characters, a dictionary
  its keys; a number or a boolean is not iterable. (\<^verbatim>\<open>None\<close> never arrives: the loop is over
  \<^verbatim>\<open>raw_txns or []\<close>.)\<close>

definition iterate :: "'f json \<Rightarrow> pyerror + 'f json list" where
  "iterate x =
     (case x of
        JList xs \<Rightarrow> Inr xs
      | JStr s \<Rightarrow> Inr (map (\<lambda>c. JStr [c]) s)
      | JObj d \<Rightarrow> Inr (map (\<lambda>kv. JStr (fst kv)) d)
      | _ \<Rightarrow> Inl TypeError)"

text \<open>The body of the loop of \<^verbatim>\<open>_post_process_extracted\<close> up to its validity test: the
  transaction an entry gives, \<open>None\<close> when the entry is skipped.\<close>

definition txn_entry :: "'f py_ops \<Rightarrow> 'f json \<Rightarrow> pyerror + 'f txn option" where
  "txn_entry P t =
     (case t of
        JObj d \<Rightarrow>
          (case normalize_date P
                  (py_or P (py_or P (dict_get d (ascii ''date'')) (dict_get d (ascii ''Date'')))
                     (dict_get d (ascii ''date_str''))) of
             Inl err \<Rightarrow> Inl err
           | Inr dt \<Rightarrow>
               let desc = strip P (py_str P
                            (py_or P (py_or P (dict_get d (ascii ''description''))
                                              (dict_get d (ascii ''Description'')))
                               (JStr [])));
                   amt = to_float P (py_or P (dict_get d (ascii ''amount'')) (dict_get d (ascii ''Amount'')));
                   bal = to_float P (py_or P (dict_get d (ascii ''balance'')) (dict_get d (ascii ''Balance'')))
               in case (dt, amt) of
                    (Some dv, Some a) \<Rightarrow>
                      if dv \<noteq> [] \<and> desc \<noteq> []
                      then Inr (Some \<lparr>date = dv, description = desc, amount = a, balance = bal,
                                      category = dict_get d (ascii ''category'')\<rparr>)
                      else Inr None
                  | _ \<Rightarrow> Inr None)
      | _ \<Rightarrow> Inr None)"

text \<open>The key of the loop, \<^verbatim>\<open>(date, desc.lower(), float(amt))\<close>.\<close>

definition txn_key :: "'f py_ops \<Rightarrow> 'f txn \<Rightarrow> ustring \<times> ustring \<times> 'f" where
  "txn_key P t = (date t, lower P (description t), amount t)"

text \<open>The loop itself, with its three variables \<open>txns\<close>, \<open>seen\<close> and \<open>dup\<close>.\<close>

fun txn_loop ::
  "'f py_ops \<Rightarrow> 'f json list \<Rightarrow> 'f txn list \<Rightarrow> (ustring \<times> ustring \<times> 'f) list \<Rightarrow> bool
     \<Rightarrow> pyerror + ('f txn list \<times> bool)"
where
  "txn_loop P [] txns seen dup = Inr (txns, dup)"
| "txn_loop P (t # ts) txns seen dup =
     (case txn_entry P t of
        Inl err \<Rightarrow> Inl err
      | Inr None \<Rightarrow> txn_loop P ts txns seen dup
      | Inr (Some x) \<Rightarrow>
          if txn_key P x \<in> set seen then txn_loop P ts txns seen True
          else txn_loop P ts (txns @ [x]) (txn_key P x # seen) dup)"

text \<open>\<^verbatim>\<open>_post_process_extracted\<close>. The retained dates are strings, so the comparisons of
  \<^verbatim>\<open>txns.sort\<close> cannot raise; \<^verbatim>\<open>list.sort\<close> is stable, as \<open>sort_key\<close> is, and Python's order of
  strings is the lexicographic order of their code points. \<^verbatim>\<open>acct.get\<close> and \<^verbatim>\<open>summary.get\<close>
  raise \<^verbatim>\<open>AttributeError\<close> on a value that is not a dictionary.\<close>

definition post_process_extracted ::
  "'f py_ops \<Rightarrow> 'f json \<Rightarrow> 'f Quality \<Rightarrow> pyerror + ('f fields \<times> 'f Quality)"
where
  "post_process_extracted P extracted0 quality =
     (let extracted = coerce_extracted P extracted0;
          acct = py_or P (dict_get extracted (ascii ''Account Info'')) (JObj []);
          summary = py_or P (dict_get extracted (ascii ''Summary Values'')) (JObj []);
          raw_txns = py_or P (dict_get extracted (ascii ''Transactions'')) (JList [])
      in case iterate (py_or P raw_txns (JList [])) of
           Inl err \<Rightarrow> Inl err
         | Inr ts \<Rightarrow>
             (case txn_loop P ts [] [] False of
                Inl err \<Rightarrow> Inl err
              | Inr (txns, dup) \<Rightarrow>
                  let quality = quality\<lparr>duplicate_entries := dup\<rparr>;
                      txns = sort_key date txns
                  in case acct of
                       JObj a \<Rightarrow>
                         (case summary of
                            JObj sm \<Rightarrow>
                              let flds =
                                    \<lparr>Account_Info =
                                       \<lparr>bank_name =
                                          py_or P (dict_get a (ascii ''Bank name'')) (dict_get a (ascii ''bank_name'')),
                                        account_holder_name =
                                          py_or P (dict_get a (ascii ''Account holder name''))
                                            (dict_get a (ascii ''account_holder_name'')),
                                        account_number =
                                          mask_account P
                                            (py_or P (dict_get a (ascii ''Account number''))
                                               (dict_get a (ascii ''account_number''))),
                                        statement_month =
                                          py_or P (dict_get a (ascii ''Statement month''))
                                            (dict_get a (ascii ''statement_month'')),
                                        account_type =
                                          py_or P (dict_get a (ascii ''Account type''))
                                            (dict_get a (ascii ''account_type''))\<rparr>,
                                     Summary_Values =
                                       \<lparr>opening_balance =
                                          to_float P
                                            (py_or P (dict_get sm (ascii ''Opening balance''))
                                               (dict_get sm (ascii ''opening_balance''))),
                                        closing_balance =
                                          to_float P
                                            (py_or P (dict_get sm (ascii ''Closing balance''))
                                               (dict_get sm (ascii ''closing_balance''))),
                                        total_credits =
                                          to_float P
                                            (py_or P (dict_get sm (ascii ''Total credits''))
                                               (dict_get sm (ascii ''total_credits''))),
                                        total_debits =
                                          to_float P
                                            (py_or P (dict_get sm (ascii ''Total debits''))
                                               (dict_get sm (ascii ''total_debits''))),
                                        average_daily_balance =
                                          to_float P
                                            (py_or P (dict_get sm (ascii ''Average daily balance''))
                                               (dict_get sm (ascii ''average_daily_balance'')))\<rparr>,
                                     Transactions = txns\<rparr>;
                                  missing =
                                    (if Transactions flds = [] then [ascii ''transactions''] else [])
                                    @ (if opening_balance (Summary_Values flds) = None
                                       then [ascii ''opening_balance''] else [])
                                    @ (if closing_balance (Summary_Values flds) = None
                                       then [ascii ''closing_balance''] else [])
                              in Inr (flds, quality\<lparr>missing_sections := missing\<rparr>)
                          | _ \<Rightarrow> Inl AttributeError)
                     | _ \<Rightarrow> Inl AttributeError))"

text \<open>The dictionary that \<^verbatim>\<open>_post_process_extracted\<close> returns, as a payload: what the engine
  reads when it is given its own result.\<close>

definition json_of_float :: "'f option \<Rightarrow> 'f json" where
  "json_of_float x = (case x of None \<Rightarrow> JNull | Some v \<Rightarrow> JFloat v)"

definition json_of_txn :: "'f txn \<Rightarrow> 'f json" where
  "json_of_txn t =
     JObj [(ascii ''date'', JStr (date t)), (ascii ''description'', JStr (description t)),
           (ascii ''amount'', JFloat (amount t)), (ascii ''balance'', json_of_float (balance t)),
           (ascii ''category'', category t)]"

definition json_of_fields :: "'f fields \<Rightarrow> 'f json" where
  "json_of_fields f =
     JObj [(ascii ''Account Info'',
              JObj [(ascii ''Bank name'', bank_name (Account_Info f)),
                    (ascii ''Account holder name'', account_holder_name (Account_Info f)),
                    (ascii ''Account number'', account_number (Account_Info f)),
                    (ascii ''Statement month'', statement_month (Account_Info f)),
                    (ascii ''Account type'', account_type (Account_Info f))]),
           (ascii ''Summary Values'',
              JObj [(ascii ''Opening balance'', json_of_float (opening_balance (Summary_Values f))),
                    (ascii ''Closing balance'', json_of_float (closing_balance (Summary_Values f))),
                    (ascii ''Total credits'', json_of_float (total_credits (Summary_Values f))),
                    (ascii ''Total debits'', json_of_float (total_debits (Summary_Values f))),
                    (ascii ''Average daily balance'',
                       json_of_float (average_daily_balance (Summary_Values f)))]),
           (ascii ''Transactions'', JList (map json_of_txn (Transactions f)))]"

section \<open>Insight summarizer\<close>

text \<open>\<^verbatim>\<open>x or 0.0\<close> for a float that may be \<^verbatim>\<open>None\<close>.\<close>

definition float_or :: "'f py_ops \<Rightarrow> 'f option \<Rightarrow> 'f \<Rightarrow> 'f" where
  "float_or P x d = (case x of None \<Rightarrow> d | Some v \<Rightarrow> if float_is_zero P v then d else v)"

text \<open>The multiplication sign U+00D7.\<close>

definition times_sign :: nat where
  "times_sign = 0xD7"

definition tip_average :: "'f py_ops \<Rightarrow> 'f \<Rightarrow> ustring" where
  "tip_average P avg = ascii ''Approx average balance '' @ [rupee] @ format_2f P avg @ ascii ''.''"

definition tip_atm :: "nat \<Rightarrow> ustring" where
  "tip_atm n = ascii ''ATM withdrawals: '' @ str_of_int (int n) @ [times_sign] @ ascii ''.''"

definition tip_upi :: "nat \<Rightarrow> ustring" where
  "tip_upi n = ascii ''UPI transactions: '' @ str_of_int (int n) @ [times_sign] @ ascii ''.''"

definition tip_net_positive :: ustring where
  "tip_net_positive = ascii ''Net positive inflow; consider saving/investing surplus.''"

definition tip_none :: ustring where
  "tip_none = ascii ''No strong insights from parsed data.''"

text \<open>\<^verbatim>\<open>_insights_local_fallback\<close>, on the record the engine returns.\<close>

definition insights_local_fallback :: "'f py_ops \<Rightarrow> 'f fields \<Rightarrow> ustring list" where
  "insights_local_fallback P flds =
     (let sv = Summary_Values flds;
          txns = Transactions flds;
          opening = opening_balance sv;
          closing = closing_balance sv;
          credits = float_or P (total_credits sv) (float_literal P ''0.0'');
          debits = float_or P (total_debits sv) (float_literal P ''0.0'');
          tips = [];
          tips = (case (opening, closing) of
                    (Some ob, Some cb) \<Rightarrow>
                      tips @ [tip_average P
                                (float_round P (float_div P (float_add P ob cb) (float_literal P ''2.0'')) 2)]
                  | _ \<Rightarrow> tips);
          atm_cnt = length (filter (\<lambda>t. contains (ascii ''atm'') (lower P (description t))) txns);
          tips = (if atm_cnt \<noteq> 0 then tips @ [tip_atm atm_cnt] else tips);
          upi_cnt = length (filter (\<lambda>t. contains (ascii ''upi'') (lower P (description t))) txns);
          tips = (if upi_cnt \<noteq> 0 then tips @ [tip_upi upi_cnt] else tips);
          tips = (if \<not> float_is_zero P credits \<and> \<not> float_is_zero P debits \<and> float_gt P credits debits
                  then tips @ [tip_net_positive] else tips);
          tips = (if tips = [] then tips @ [tip_none] else tips)
      in tips)"

section \<open>Pipeline entry and test mode\<close>

record 'f result =
  out_fields :: "'f fields"
  out_insights :: "ustring list"
  out_quality :: "(ustring \<times> 'f json) list"

definition mock_output :: "'f py_ops \<Rightarrow> 'f result" where
  "mock_output P =
     \<lparr>out_fields =
        \<lparr>Account_Info =
           \<lparr>bank_name = JStr (ascii ''HDFC Bank''),
            account_holder_name = JStr (ascii ''Test User''),
            account_number = JStr (ascii ''XXXX-XXXX-XXXX-7890''),
            statement_month = JStr (ascii ''October 2025''),
            account_type = JStr (ascii ''Savings'')\<rparr>,
         Summary_Values =
           \<lparr>opening_balance = Some (float_literal P ''15000.0''),
            closing_balance = Some (float_literal P ''17500.0''),
            total_credits = Some (float_literal P ''12000.0''),
            total_debits = Some (float_literal P ''9500.0''),
            average_daily_balance = Some (float_literal P ''16200.0'')\<rparr>,
         Transactions =
           [\<lparr>date = ascii ''2025-10-01'', description = ascii ''Salary Credit'',
             amount = float_literal P ''25000.0'', balance = Some (float_literal P ''40000.0''),
             category = JStr (ascii ''Salary'')\<rparr>,
            \<lparr>date = ascii ''2025-10-05'', description = ascii ''ATM WITHDRAWAL'',
             amount = float_literal P ''-2000.0'', balance = Some (float_literal P ''38000.0''),
             category = JStr (ascii ''ATM Cash'')\<rparr>]\<rparr>,
      out_insights =
        [ascii ''Account maintained > '' @ [rupee] @ ascii ''10,000 average balance during October.''],
      out_quality = []\<rparr>"

text \<open>\<^verbatim>\<open>process_bank_statement\<close>: \<open>path_exists\<close> is \<^verbatim>\<open>os.path.exists\<close> on the file system the
  program runs on, and \<open>pipeline\<close> is everything after the test-mode branch (the remote
  call, the local recognition, the engine and the insights), which works through
  libraries that are not code of this repository.\<close>

definition process_bank_statement ::
  "'f py_ops \<Rightarrow> (ustring \<Rightarrow> bool) \<Rightarrow> (ustring \<Rightarrow> pyerror + 'f result) \<Rightarrow> ustring \<Rightarrow> bool
     \<Rightarrow> pyerror + 'f result"
where
  "process_bank_statement P path_exists pipeline file_path test_mode =
     (if \<not> path_exists file_path then Inl (FileNotFoundError file_path)
      else if test_mode then Inr (mock_output P)
      else pipeline file_path)"

section \<open>A decimal instance of the operations\<close>

text \<open>
  For evaluating the program on concrete payloads the operations need a concrete reading.
  In \<open>dec_ops\<close> a finite float is the rational number it denotes: \<^verbatim>\<open>float(s)\<close> gives the exact
  value of the decimal numeral, overflowing to infinity at the threshold of binary64
  (\<open>2^1024 - 2^970\<close>, the least value that rounds to infinity), and the arithmetic is
  exact. The rounding of the significand to 53 bits is not part of this reading, so it is
  used below only on values that binary64 represents exactly (integers and quarters far
  below \<open>2^53\<close>, and the overflow to infinity).

  \<open>dec_parse\<close> reads the numerals that reach \<^verbatim>\<open>float\<close> in this program: an optional minus
  sign, the digits \<^verbatim>\<open>0\<close> to \<^verbatim>\<open>9\<close> and at most one point (every other character has been
  removed by \<^verbatim>\<open>NON_NUMERIC\<close>). \<open>dec_repr\<close> is \<^verbatim>\<open>repr\<close> of a float that has a finite decimal
  expansion: the shortest digits, in exponent notation when the decimal point lies outside
  \<open>-4 < decpt \<le> 16\<close>.

  The Unicode tables of \<open>dec_ops\<close> are those of a database without entries: no decimal
  digit and no white space above 127, every code point above 127 printable and its own
  lower case. \<open>dec_ops\<close> is used below on payloads of ASCII text only, and on such text no
  definition of the model consults the tables.
\<close>

datatype dfloat = Fin rat | PInf | NInf | NaN

definition overflow_bound :: rat where
  "overflow_bound = 2 ^ 1024 - 2 ^ 970"

definition dec_round :: "rat \<Rightarrow> dfloat" where
  "dec_round q = (if overflow_bound \<le> q then PInf else if q \<le> - overflow_bound then NInf else Fin q)"

definition digits_val :: "ustring \<Rightarrow> nat" where
  "digits_val s = foldl (\<lambda>a c. 10 * a + (c - 48)) 0 s"

definition dec_parse :: "ustring \<Rightarrow> dfloat option" where
  "dec_parse s =
     (let neg = (case s of [] \<Rightarrow> False | c # cs \<Rightarrow> c = 45);
          body = (if neg then tl s else s);
          ip = takeWhile is_digit09 body;
          rest = drop (length ip) body;
          fp = (case rest of [] \<Rightarrow> [] | c # cs \<Rightarrow> cs);
          wellformed = ((rest = [] \<or> (hd rest = 46 \<and> list_all is_digit09 fp)) \<and> (ip \<noteq> [] \<or> fp \<noteq> []));
          q = of_nat (digits_val (ip @ fp)) / 10 ^ length fp
      in if wellformed then Some (dec_round (if neg then - q else q)) else None)"

fun dec_scale :: "nat \<Rightarrow> rat \<Rightarrow> nat \<Rightarrow> nat" where
  "dec_scale 0 q k = k"
| "dec_scale (Suc fuel) q k = (if q * 10 ^ k = of_int \<lfloor>q * 10 ^ k\<rfloor> then k else dec_scale fuel q (Suc k))"

definition strip_zeros :: "ustring \<Rightarrow> ustring" where
  "strip_zeros s = rev (dropWhile (\<lambda>c. c = 48) (rev s))"

definition dec_repr_pos :: "rat \<Rightarrow> ustring" where
  "dec_repr_pos q =
     (let k = dec_scale 1100 q 0;
          all = digits_of (nat \<lfloor>q * 10 ^ k\<rfloor>);
          ds = strip_zeros all;
          decpt = int (length all) - int k
      in if decpt \<le> - 4 \<or> 16 < decpt
         then hd ds # (if tl ds = [] then [] else ascii ''.'' @ tl ds) @ ascii ''e''
              @ (if decpt - 1 < 0 then ascii ''-'' else ascii ''+'')
              @ zero_pad 2 (digits_of (nat \<bar>decpt - 1\<bar>))
         else if decpt \<le> 0 then ascii ''0.'' @ replicate (nat (- decpt)) 48 @ ds
         else if int (length ds) \<le> decpt then ds @ replicate (nat decpt - length ds) 48 @ ascii ''.0''
         else take (nat decpt) ds @ ascii ''.'' @ drop (nat decpt) ds)"

definition dec_repr :: "dfloat \<Rightarrow> ustring" where
  "dec_repr x = (case x of
      Fin q \<Rightarrow> if q = 0 then ascii ''0.0'' else if q < 0 then ascii ''-'' @ dec_repr_pos (- q)
               else dec_repr_pos q
    | PInf \<Rightarrow> ascii ''inf'' | NInf \<Rightarrow> ascii ''-inf'' | NaN \<Rightarrow> ascii ''nan'')"

definition round_half_even :: "rat \<Rightarrow> int" where
  "round_half_even q = (let f = \<lfloor>q\<rfloor>; d = q - of_int f in
      if d < 1 / 2 then f else if 1 / 2 < d then f + 1 else if even f then f else f + 1)"

fun group_thousands :: "ustring \<Rightarrow> ustring" where
  "group_thousands s =
     (if length s \<le> 3 then s
      else group_thousands (take (length s - 3) s) @ ascii '','' @ drop (length s - 3) s)"

declare group_thousands.simps [simp del]

definition dec_format_2f :: "dfloat \<Rightarrow> ustring" where
  "dec_format_2f x = (case x of
      Fin q \<Rightarrow>
        (let n = nat (round_half_even (\<bar>q\<bar> * 100))
         in (if q < 0 then ascii ''-'' else []) @ group_thousands (digits_of (n div 100)) @ ascii ''.''
            @ zero_pad 2 (digits_of (n mod 100)))
    | PInf \<Rightarrow> ascii ''inf'' | NInf \<Rightarrow> ascii ''-inf'' | NaN \<Rightarrow> ascii ''nan'')"

definition dec_add :: "dfloat \<Rightarrow> dfloat \<Rightarrow> dfloat" where
  "dec_add x y = (case (x, y) of
      (Fin a, Fin b) \<Rightarrow> dec_round (a + b)
    | (NaN, _) \<Rightarrow> NaN | (_, NaN) \<Rightarrow> NaN
    | (PInf, NInf) \<Rightarrow> NaN | (NInf, PInf) \<Rightarrow> NaN
    | (PInf, _) \<Rightarrow> PInf | (_, PInf) \<Rightarrow> PInf
    | (NInf, _) \<Rightarrow> NInf | (_, NInf) \<Rightarrow> NInf)"

definition dec_div :: "dfloat \<Rightarrow> dfloat \<Rightarrow> dfloat" where
  "dec_div x y = (case (x, y) of
      (Fin a, Fin b) \<Rightarrow> if b = 0 then NaN else dec_round (a / b)
    | (PInf, Fin b) \<Rightarrow> if 0 < b then PInf else if b < 0 then NInf else NaN
    | (NInf, Fin b) \<Rightarrow> if 0 < b then NInf else if b < 0 then PInf else NaN
    | (Fin a, PInf) \<Rightarrow> Fin 0 | (Fin a, NInf) \<Rightarrow> Fin 0
    | _ \<Rightarrow> NaN)"

definition dec_round_n :: "dfloat \<Rightarrow> nat \<Rightarrow> dfloat" where
  "dec_round_n x n = (case x of Fin q \<Rightarrow> Fin (of_int (round_half_even (q * 10 ^ n)) / 10 ^ n) | _ \<Rightarrow> x)"

definition dec_gt :: "dfloat \<Rightarrow> dfloat \<Rightarrow> bool" where
  "dec_gt x y = (case (x, y) of
      (Fin a, Fin b) \<Rightarrow> b < a
    | (NaN, _) \<Rightarrow> False | (_, NaN) \<Rightarrow> False
    | (PInf, PInf) \<Rightarrow> False | (PInf, _) \<Rightarrow> True
    | (_, NInf) \<Rightarrow> (x \<noteq> NInf)
    | _ \<Rightarrow> False)"

definition dec_ops :: "dfloat py_ops" where
  "dec_ops = \<lparr>float_of_str = dec_parse, str_of_float = dec_repr, float_is_zero = (\<lambda>x. x = Fin 0),
     float_literal = (\<lambda>s. case dec_parse (ascii s) of Some v \<Rightarrow> v | None \<Rightarrow> NaN),
     float_add = dec_add, float_div = dec_div, float_round = dec_round_n, float_gt = dec_gt,
     format_2f = dec_format_2f,
     unicode_decimal = (\<lambda>c. None), unicode_space = (\<lambda>c. False), unicode_printable = (\<lambda>c. True),
     unicode_lower = map lower_ascii\<rparr>"

text \<open>\<^verbatim>\<open>Quality()\<close>: the defaults of the data class.\<close>

definition new_quality :: "'f Quality" where
  "new_quality =
     \<lparr>ocr_confidence = None, page_rotation_warnings = False, missing_sections = [],
      duplicate_entries = False, gemini_used = False, gemini_error = None, quality_notes = []\<rparr>"

section \<open>Notions used to state the properties\<close>

text \<open>The value the engine iterates over as \<^verbatim>\<open>raw_txns\<close>.\<close>

definition raw_txns :: "'f py_ops \<Rightarrow> 'f json \<Rightarrow> 'f json" where
  "raw_txns P x =
     py_or P (py_or P (dict_get (coerce_extracted P x) (ascii ''Transactions'')) (JList [])) (JList [])"

text \<open>The transactions the entries of a payload give, in the order of the entries: those
  the validity test of the loop lets through, before any of them is dropped as a duplicate.\<close>

definition valid_txns :: "'f py_ops \<Rightarrow> 'f json list \<Rightarrow> 'f txn list" where
  "valid_txns P ts =
     List.map_filter (\<lambda>t. case txn_entry P t of Inr (Some x) \<Rightarrow> Some x | _ \<Rightarrow> None) ts"


text \<open>Keeping the first element of every key: an element stays, and everything after it
  with the same key goes. This is stated without a set of keys seen so far, which is how
  the loop does it; that the loop computes this is proved below.\<close>

fun first_occurrences :: "('a \<Rightarrow> 'k) \<Rightarrow> 'a list \<Rightarrow> 'a list" where
  "first_occurrences key [] = []"
| "first_occurrences key (x # xs) = x # first_occurrences key (filter (\<lambda>y. key y \<noteq> key x) xs)"


text \<open>A string without any currency sign of \<^verbatim>\<open>CURRENCY_PATTERN\<close>.\<close>

definition currency_free :: "ustring \<Rightarrow> bool" where
  "currency_free s = (set s \<inter> set currency_signs = {})"

section \<open>Concrete payloads and candidates\<close>

text \<open>The payloads and records at which the properties are evaluated.\<close>

definition no_account_info :: "'f account_info" where
  "no_account_info =
     \<lparr>bank_name = JNull, account_holder_name = JNull, account_number = JNull,
      statement_month = JNull, account_type = JNull\<rparr>"

definition no_summary_values :: "'f summary_values" where
  "no_summary_values =
     \<lparr>opening_balance = None, closing_balance = None, total_credits = None,
      total_debits = None, average_daily_balance = None\<rparr>"

text \<open>Scenario A of the spec: the same withdrawal twice, the amount once as a string with a
  thousands separator and once as a number, the descriptions differing in case.\<close>

definition scenario_A :: "dfloat json" where
  "scenario_A =
     JObj [(ascii ''Transactions'',
       JList [JObj [(ascii ''date'', JStr (ascii ''2025-10-05'')),
                    (ascii ''description'', JStr (ascii ''ATM WITHDRAWAL'')),
                    (ascii ''amount'', JStr (ascii ''-2,000.00''))],
              JObj [(ascii ''date'', JStr (ascii ''2025-10-05'')),
                    (ascii ''description'', JStr (ascii ''atm withdrawal'')),
                    (ascii ''amount'', JFloat (Fin (- 2000)))]])]"

definition atm_withdrawal :: "dfloat txn" where
  "atm_withdrawal =
     \<lparr>date = ascii ''2025-10-05'', description = ascii ''ATM WITHDRAWAL'', amount = Fin (- 2000),
      balance = None, category = JNull\<rparr>"

text \<open>Three entries out of order, two of them on one day.\<close>

definition unordered_payload :: "dfloat json" where
  "unordered_payload =
     JObj [(ascii ''Transactions'',
       JList [JObj [(ascii ''date'', JStr (ascii ''2025-03-02'')), (ascii ''description'', JStr (ascii ''b'')),
                    (ascii ''amount'', JInt 1)],
              JObj [(ascii ''date'', JStr (ascii ''15/01/2025'')), (ascii ''description'', JStr (ascii ''a'')),
                    (ascii ''amount'', JInt 2)],
              JObj [(ascii ''date'', JStr (ascii ''2025-03-02'')), (ascii ''description'', JStr (ascii ''c'')),
                    (ascii ''amount'', JInt 3)]])]"

definition txn_of :: "string \<Rightarrow> string \<Rightarrow> dfloat \<Rightarrow> dfloat txn" where
  "txn_of d s a =
     \<lparr>date = ascii d, description = ascii s, amount = a, balance = None, category = JNull\<rparr>"


text \<open>An entry whose date is a number.\<close>

definition numeric_date_payload :: "dfloat json" where
  "numeric_date_payload =
     JObj [(ascii ''Transactions'',
       JList [JObj [(ascii ''date'', JInt 20251005), (ascii ''description'', JStr (ascii ''x'')),
                    (ascii ''amount'', JInt 1)]])]"

text \<open>An entry whose amount is zero, written as a string.\<close>

definition zero_amount_payload :: "dfloat json" where
  "zero_amount_payload =
     JObj [(ascii ''Transactions'',
       JList [JObj [(ascii ''date'', JStr (ascii ''2025-01-01'')),
                    (ascii ''description'', JStr (ascii ''Fee waiver'')),
                    (ascii ''amount'', JStr (ascii ''0.00''))]])]"

text \<open>A summary with credits and with debits of zero, and the record the engine returns for it.\<close>

definition zero_debits_payload :: "dfloat json" where
  "zero_debits_payload =
     JObj [(ascii ''Summary Values'',
       JObj [(ascii ''Total credits'', JStr (ascii ''100'')),
             (ascii ''Total debits'', JStr (ascii ''0.00''))])]"

definition zero_debits_fields :: "dfloat fields" where
  "zero_debits_fields =
     \<lparr>Account_Info = no_account_info,
      Summary_Values = no_summary_values\<lparr>total_credits := Some (Fin 100), total_debits := Some (Fin 0)\<rparr>,
      Transactions = []\<rparr>"

text \<open>Scenario D of the spec.\<close>

definition scenario_D :: ustring where
  "scenario_D = ascii ''2025-01-15 Grocery Store 250.75''"

text \<open>A line whose date has a year of two digits.\<close>

definition short_year_text :: ustring where
  "short_year_text = ascii ''01-02-03 x 5''"

text \<open>The records the engine returns for these payloads.\<close>

definition fields_of :: "dfloat txn list \<Rightarrow> dfloat fields" where
  "fields_of ts =
     \<lparr>Account_Info = no_account_info, Summary_Values = no_summary_values, Transactions = ts\<rparr>"

definition quality_of :: "bool \<Rightarrow> string list \<Rightarrow> dfloat Quality" where
  "quality_of dup missing =
     new_quality\<lparr>duplicate_entries := dup, missing_sections := map ascii missing\<rparr>"

text \<open>A match of \<^verbatim>\<open>TXN_LINE_RE\<close> whose date and amount both normalize, and the candidate it
  gives.\<close>

definition candidate_of :: "'f py_ops \<Rightarrow> ustring \<Rightarrow> nat \<times> nat \<times> caps \<Rightarrow> 'f json \<Rightarrow> bool" where
  "candidate_of P text m c =
     (case m of (st, e, cs) \<Rightarrow>
        \<exists>d a. normalize_date P (json_of_group (m_group text cs 1)) = Inr (Some d) \<and> d \<noteq> []
          \<and> to_float P (json_of_group (m_group text cs 2)) = Some a
          \<and> c = JObj [(ascii ''date'', JStr d), (ascii ''description'', JStr (strip P (slice text st e))),
                       (ascii ''amount'', JFloat a), (ascii ''balance'', JNull),
                       (ascii ''category'', JNull)])"

section \<open>Properties\<close>

subsection \<open>Literals\<close>

lemma ascii_eq_iff [simp]: "ascii s = ascii t \<longleftrightarrow> s = t"
  by (simp add: ascii_def inj_map_eq_map inj_on_def)

lemma ascii_eq_Nil [simp]: "ascii s = [] \<longleftrightarrow> s = []" "[] = ascii s \<longleftrightarrow> s = []"
  by (auto simp add: ascii_def)

lemma length_ascii [simp]: "length (ascii s) = length s"
  by (simp add: ascii_def)

text \<open>On ASCII text the classes do not depend on the parameter.\<close>

lemma ascii_classes:
  "c < 128 \<Longrightarrow> is_digit P c = is_digit09 c"
  "c < 128 \<Longrightarrow> digit_val P c = c - 48"
  "c < 128 \<Longrightarrow> is_space P c = ((9 \<le> c \<and> c \<le> 13) \<or> (28 \<le> c \<and> c \<le> 32))"
  "list_all (\<lambda>c. c < 128) s \<Longrightarrow> lower P s = map lower_ascii s"
  by (simp_all add: is_digit_def is_digit09_def digit_val_def is_space_def lower_def)

text \<open>Above 127 they follow the Unicode database: the no-break space U+00A0 is stripped
  when the database has it as white space, and \<^verbatim>\<open>repr\<close> writes it as \<^verbatim>\<open>\xa0\<close> when it is not
  printable.\<close>

lemma no_break_space:
  "unicode_space P 0xA0 \<Longrightarrow> strip P ([0xA0] @ ascii ''x '') = ascii ''x''"
  "\<not> unicode_printable P 0xA0 \<Longrightarrow> repr_str P [0xA0] = [39, 92] @ ascii ''xa0'' @ [39]"
  by (simp_all add: strip_def is_space_def repr_str_def repr_char_def hex_digits_def hex_digit_def
      ascii_def numeral_2_eq_2)

subsection \<open>Test mode\<close>

text \<open>
  Claim C10. In test mode \<^verbatim>\<open>process_bank_statement\<close> still raises \<^verbatim>\<open>FileNotFoundError\<close> for a
  path that does not exist, because the test of existence comes before the test-mode
  branch; the fixed mock record is returned exactly for an existing path, and its
  \<^verbatim>\<open>quality\<close> is the empty dictionary, holding none of the fields of \<^verbatim>\<open>Quality\<close>.
\<close>

theorem process_bank_statement_test_mode:
  "process_bank_statement P path_exists pipeline file_path True =
     (if path_exists file_path then Inr (mock_output P) else Inl (FileNotFoundError file_path))
   \<and> out_quality (mock_output P) = []"
  by (simp add: process_bank_statement_def mock_output_def)

subsection \<open>Shape coercer\<close>

text \<open>
  Claim C9, as the spec states it, fails on a list that starts with a dictionary and
  holds something else further on: such a list is not a list of mappings, yet the coercer
  passes it on whole as the transactions, since it looks at the first element only.
\<close>

theorem coerce_extracted_mixed_list:
  "\<not> is_dict (JList [JObj [], JInt 5 :: dfloat json])
   \<and> \<not> list_all is_dict [JObj [], JInt 5 :: dfloat json]
   \<and> dict_get (coerce_extracted dec_ops (JList [JObj [], JInt 5])) (ascii ''Transactions'')
       = JList [JObj [], JInt 5]
   \<and> coerce_extracted dec_ops (JList [JObj [], JInt 5]) \<noteq> empty_shape"
  by (simp add: coerce_extracted_def empty_shape_def Let_def is_dict_def dict_get_def)

text \<open>
  Claim C9, amended in its part on lists only. \<^verbatim>\<open>_coerce_extracted\<close> is total (no operation
  in it can raise: the model is a function into dictionaries with no error result) and
  returns a dictionary with exactly the keys \<^verbatim>\<open>Account Info\<close>, \<^verbatim>\<open>Summary Values\<close> and
  \<^verbatim>\<open>Transactions\<close>, in this order.

  A mapping is read through its entry \<^verbatim>\<open>fields\<close> when that is a mapping, and as it is
  otherwise; each section is then the value of the section key, or else of its lower-case
  alias, or else the empty structure, a falsy value counting as none. So a mapping that is
  not recognized, one in which no section key and no alias holds a truthy value, gives the
  three empty structures.

  An input that is neither a mapping nor a list whose first element is a mapping gives
  the three empty structures. A list whose first element is a mapping becomes the
  transactions as it is, whatever its other elements are.
\<close>

theorem coerce_extracted_shape:
  "map fst (coerce_extracted P x)
     = [ascii ''Account Info'', ascii ''Summary Values'', ascii ''Transactions'']
   \<and> (\<forall>d. x = JObj d \<longrightarrow>
        (\<exists>e. (case dict_get d (ascii ''fields'') of JObj w \<Rightarrow> e = w | _ \<Rightarrow> e = d)
           \<and> coerce_extracted P x =
               [(ascii ''Account Info'',
                   py_or P (py_or P (dict_get e (ascii ''Account Info'')) (dict_get e (ascii ''account_info'')))
                     (JObj [])),
                (ascii ''Summary Values'',
                   py_or P (py_or P (dict_get e (ascii ''Summary Values'')) (dict_get e (ascii ''summary_values'')))
                     (JObj [])),
                (ascii ''Transactions'',
                   py_or P (py_or P (dict_get e (ascii ''Transactions'')) (dict_get e (ascii ''transactions'')))
                     (JList []))]
           \<and> ((\<forall>k \<in> set [ascii ''Account Info'', ascii ''account_info'', ascii ''Summary Values'',
                            ascii ''summary_values'', ascii ''Transactions'', ascii ''transactions''].
                   \<not> truthy P (dict_get e k))
                \<longrightarrow> coerce_extracted P x = empty_shape)))
   \<and> (\<not> is_dict x \<and> (\<forall>y ys. x = JList (y # ys) \<longrightarrow> \<not> is_dict y)
        \<longrightarrow> coerce_extracted P x = empty_shape)
   \<and> (\<forall>y ys. x = JList (y # ys) \<and> is_dict y \<longrightarrow>
         coerce_extracted P x =
           [(ascii ''Account Info'', JObj []), (ascii ''Summary Values'', JObj []),
            (ascii ''Transactions'', x)])"
proof (intro conjI allI impI)
  show "map fst (coerce_extracted P x)
     = [ascii ''Account Info'', ascii ''Summary Values'', ascii ''Transactions'']"
    by (auto simp add: coerce_extracted_def empty_shape_def Let_def is_dict_def
        split: json.splits list.splits)
next
  fix d
  assume x: "x = JObj d"
  define e where "e = (case dict_get d (ascii ''fields'') of JObj w \<Rightarrow> w | _ \<Rightarrow> d)"
  have sel: "(case dict_get d (ascii ''fields'') of JObj w \<Rightarrow> e = w | _ \<Rightarrow> e = d)"
    by (simp add: e_def split: json.splits)
  have present: "is_dict (dict_get d (ascii ''fields'')) \<Longrightarrow> ascii ''fields'' \<in> set (map fst d)"
    by (force simp add: dict_get_def is_dict_def split: option.splits dest: map_of_SomeD)
  have unwrap: "(if ascii ''fields'' \<in> set (map fst d) \<and> is_dict (dict_get d (ascii ''fields''))
                 then dict_get d (ascii ''fields'') else JObj d) = JObj e"
    using present by (auto simp add: e_def is_dict_def split: json.splits)
  have c: "coerce_extracted P x =
      [(ascii ''Account Info'',
          py_or P (py_or P (dict_get e (ascii ''Account Info'')) (dict_get e (ascii ''account_info'')))
            (JObj [])),
       (ascii ''Summary Values'',
          py_or P (py_or P (dict_get e (ascii ''Summary Values'')) (dict_get e (ascii ''summary_values'')))
            (JObj [])),
       (ascii ''Transactions'',
          py_or P (py_or P (dict_get e (ascii ''Transactions'')) (dict_get e (ascii ''transactions'')))
            (JList []))]"
    unfolding coerce_extracted_def Let_def x json.case unwrap by simp
  have "coerce_extracted P x = empty_shape"
    if "\<forall>k \<in> set [ascii ''Account Info'', ascii ''account_info'', ascii ''Summary Values'',
                    ascii ''summary_values'', ascii ''Transactions'', ascii ''transactions''].
           \<not> truthy P (dict_get e k)"
    using that by (simp add: c py_or_def empty_shape_def)
  with sel c show "\<exists>e. (case dict_get d (ascii ''fields'') of JObj w \<Rightarrow> e = w | _ \<Rightarrow> e = d)
           \<and> coerce_extracted P x =
               [(ascii ''Account Info'',
                   py_or P (py_or P (dict_get e (ascii ''Account Info'')) (dict_get e (ascii ''account_info'')))
                     (JObj [])),
                (ascii ''Summary Values'',
                   py_or P (py_or P (dict_get e (ascii ''Summary Values'')) (dict_get e (ascii ''summary_values'')))
                     (JObj [])),
                (ascii ''Transactions'',
                   py_or P (py_or P (dict_get e (ascii ''Transactions'')) (dict_get e (ascii ''transactions'')))
                     (JList []))]
           \<and> ((\<forall>k \<in> set [ascii ''Account Info'', ascii ''account_info'', ascii ''Summary Values'',
                            ascii ''summary_values'', ascii ''Transactions'', ascii ''transactions''].
                   \<not> truthy P (dict_get e k))
                \<longrightarrow> coerce_extracted P x = empty_shape)"
    by blast
next
  assume "\<not> is_dict x \<and> (\<forall>y ys. x = JList (y # ys) \<longrightarrow> \<not> is_dict y)"
  then show "coerce_extracted P x = empty_shape"
    by (auto simp add: coerce_extracted_def empty_shape_def Let_def is_dict_def
        split: json.splits list.splits)
next
  fix y ys
  assume "x = JList (y # ys) \<and> is_dict y"
  then show "coerce_extracted P x =
           [(ascii ''Account Info'', JObj []), (ascii ''Summary Values'', JObj []),
            (ascii ''Transactions'', x)]"
    by (simp add: coerce_extracted_def Let_def)
qed

theorem coerce_extracted_shape_witness:
  "coerce_extracted dec_ops (JObj [(ascii ''foo'', JInt 1)]) = empty_shape
   \<and> coerce_extracted dec_ops (JObj [(ascii ''Transactions'', JList []), (ascii ''account_info'', JNull)])
       = empty_shape
   \<and> coerce_extracted dec_ops
        (JObj [(ascii ''fields'', JObj [(ascii ''transactions'', JList [JObj []])]),
               (ascii ''Transactions'', JList [JInt 7])])
       = [(ascii ''Account Info'', JObj []), (ascii ''Summary Values'', JObj []),
          (ascii ''Transactions'', JList [JObj []])]
   \<and> coerce_extracted dec_ops (JList [JInt 5, JObj []]) = empty_shape
   \<and> coerce_extracted dec_ops (JStr (ascii ''not json at all'')) = empty_shape
   \<and> coerce_extracted dec_ops (JList [JObj [], JInt 5]) =
       [(ascii ''Account Info'', JObj []), (ascii ''Summary Values'', JObj []),
        (ascii ''Transactions'', JList [JObj [], JInt 5])]"
  using coerce_extracted_shape [of dec_ops "JObj [(ascii ''foo'', JInt 1)]"]
    coerce_extracted_shape
      [of dec_ops "JObj [(ascii ''Transactions'', JList []), (ascii ''account_info'', JNull)]"]
    coerce_extracted_shape
      [of dec_ops "JObj [(ascii ''fields'', JObj [(ascii ''transactions'', JList [JObj []])]),
                         (ascii ''Transactions'', JList [JInt 7])]"]
    coerce_extracted_shape [of dec_ops "JList [JInt 5, JObj []]"]
    coerce_extracted_shape [of dec_ops "JStr (ascii ''not json at all'')"]
    coerce_extracted_shape [of dec_ops "JList [JObj [], JInt 5]"]
  by (simp add: is_dict_def dict_get_def py_or_def empty_shape_def)

subsection \<open>Masking\<close>

lemma cc_match_Digit: "cc_match P Digit = is_digit P"
  by (rule ext) simp

lemma run_single:
  "run P (Rep c (Suc 0) (Some (Suc 0))) s p cs =
     (if p < length s \<and> cc_match P c (s ! p) then [(Suc p, cs)] else [])"
proof (cases "p < length s")
  case True
  then have d: "drop p s = s ! p # drop (Suc p) s"
    by (simp add: Cons_nth_drop_Suc)
  show ?thesis
    using True by (simp add: run.simps d Let_def min_def)
next
  case False
  then show ?thesis by (simp add: run.simps)
qed

lemma finditer_single:
  "map (\<lambda>(st, e, cs). slice s st e) (finditer_from P (Rep c (Suc 0) (Some (Suc 0))) s p)
     = map (\<lambda>x. [x]) (filter (cc_match P c) (drop p s))"
proof (induction "length s - p" arbitrary: p)
  case 0
  then have "drop p s = []" by simp
  moreover have "search_from P (Rep c (Suc 0) (Some (Suc 0))) s p = None"
    using 0 by (simp add: search_from.simps [of _ _ s p] search_from.simps [of _ _ s "Suc p"] run_single)
  ultimately show ?case
    by (simp add: finditer_from.simps [of _ _ s p])
next
  case (Suc n)
  then have lt: "p < length s" and n: "n = length s - Suc p"
    by simp_all
  have d: "drop p s = s ! p # drop (Suc p) s"
    using lt by (simp add: Cons_nth_drop_Suc)
  show ?case
  proof (cases "cc_match P c (s ! p)")
    case True
    then have "search_from P (Rep c (Suc 0) (Some (Suc 0))) s p = Some (p, Suc p, Map.empty)"
      using lt by (simp add: search_from.simps [of _ _ s p] run_single)
    then have "finditer_from P (Rep c (Suc 0) (Some (Suc 0))) s p
        = (p, Suc p, Map.empty) # finditer_from P (Rep c (Suc 0) (Some (Suc 0))) s (Suc p)"
      by (simp add: finditer_from.simps [of _ _ s p])
    moreover have "slice s p (Suc p) = [s ! p]"
      using lt by (simp add: slice_def d)
    ultimately show ?thesis
      using Suc.hyps(1) [OF n] True by (simp add: d)
  next
    case False
    then have "search_from P (Rep c (Suc 0) (Some (Suc 0))) s p
        = search_from P (Rep c (Suc 0) (Some (Suc 0))) s (Suc p)"
      using lt by (simp add: search_from.simps [of _ _ s p] run_single)
    then have "finditer_from P (Rep c (Suc 0) (Some (Suc 0))) s p
        = finditer_from P (Rep c (Suc 0) (Some (Suc 0))) s (Suc p)"
      by (simp add: finditer_from.simps [of _ _ s p] finditer_from.simps [of _ _ s "Suc p"])
    then show ?thesis
      using Suc.hyps(1) [OF n] False by (simp add: d)
  qed
qed

lemma findall_digits:
  "findall P (Rep Digit (Suc 0) (Some (Suc 0))) s = map (\<lambda>x. [x]) (filter (is_digit P) s)"
  using finditer_single [of s P Digit 0] by (simp add: findall_def finditer_def cc_match_Digit)

lemma concat_singletons: "concat (map (\<lambda>x. [x]) xs) = xs"
  by (induction xs) simp_all

lemma mask_account_str:
  "mask_account P (JStr s) =
     (if length (filter (is_digit P) s) < 4 then JStr s
      else JStr (ascii ''XXXX-XXXX-XXXX-''
                 @ drop (length (filter (is_digit P) s) - 4) (filter (is_digit P) s)))"
  by (auto simp add: mask_account_def py_str_def findall_digits Let_def drop_map concat_singletons)

text \<open>A decimal digit above 127, here the Arabic-Indic digit three U+0663, counts as a digit
  and is kept as it is.\<close>

lemma unicode_digit_mask:
  assumes "unicode_decimal P 0x663 = Some 3"
  shows "mask_account P (JStr (ascii ''12'' @ [0x663] @ ascii ''4''))
           = JStr (ascii ''XXXX-XXXX-XXXX-12'' @ [0x663] @ ascii ''4'')"
  using assms by (simp add: mask_account_str is_digit_def ascii_def)

lemma mask_prefix_digits: "filter (is_digit P) (ascii ''XXXX-XXXX-XXXX-'') = []"
  by (simp add: ascii_def is_digit_def)

lemma is_digit_09: "is_digit P c" if "48 \<le> c" "c \<le> 57"
  using that by (simp add: is_digit_def)

text \<open>
  Claim C8. \<^verbatim>\<open>_mask_account\<close> on a string never raises (\<^verbatim>\<open>str\<close> and \<^verbatim>\<open>re.findall\<close> of a string
  cannot, and the model has no error result). The digits of a string are the characters
  that \<^verbatim>\<open>\d\<close> matches, the decimal digits of Unicode. A string with fewer than four digits
  is returned unchanged; with four digits or more the result is \<^verbatim>\<open>XXXX-XXXX-XXXX-\<close> followed
  by the last four digits of the input; masking twice is masking once; and
  \<^verbatim>\<open>1234567890123456\<close> gives \<^verbatim>\<open>XXXX-XXXX-XXXX-3456\<close>.
\<close>

theorem mask_account_string:
  "mask_account P (JStr s) =
     (if length (filter (is_digit P) s) < 4 then JStr s
      else JStr (ascii ''XXXX-XXXX-XXXX-''
                 @ drop (length (filter (is_digit P) s) - 4) (filter (is_digit P) s)))
   \<and> mask_account P (mask_account P (JStr s)) = mask_account P (JStr s)
   \<and> mask_account P (JStr (ascii ''1234567890123456'')) = JStr (ascii ''XXXX-XXXX-XXXX-3456'')"
proof -
  let ?ds = "filter (is_digit P) s"
  have idem: "mask_account P (mask_account P (JStr s)) = mask_account P (JStr s)"
  proof (cases "length ?ds < 4")
    case True
    then show ?thesis by (simp add: mask_account_str)
  next
    case False
    let ?l = "drop (length ?ds - 4) ?ds"
    have l: "filter (is_digit P) ?l = ?l"
      by (auto simp add: filter_id_conv dest: in_set_dropD)
    have "length ?l = 4"
      using False by simp
    then show ?thesis
      using False by (simp add: mask_account_str mask_prefix_digits l)
  qed
  have "filter (is_digit P) (ascii ''1234567890123456'') = ascii ''1234567890123456''"
    by (simp add: ascii_def is_digit_def)
  then have ex: "mask_account P (JStr (ascii ''1234567890123456'')) = JStr (ascii ''XXXX-XXXX-XXXX-3456'')"
    by (simp add: mask_account_str) (simp add: ascii_def)
  show ?thesis
    using idem ex mask_account_str by blast
qed

subsection \<open>The loop keeps first occurrences\<close>

lemma first_occurrences_set: "set (first_occurrences key xs) \<subseteq> set xs"
  by (induction key xs rule: first_occurrences.induct) auto

lemma first_occurrences_keys: "key ` set (first_occurrences key xs) = key ` set xs"
proof (induction key xs rule: first_occurrences.induct)
  case (1 key)
  then show ?case by simp
next
  case (2 key x xs)
  have "key ` set (x # xs) = insert (key x) (key ` set (filter (\<lambda>y. key y \<noteq> key x) xs))"
    by auto
  with 2 show ?case by simp
qed

lemma first_occurrences_distinct: "distinct (map key (first_occurrences key xs))"
proof (induction key xs rule: first_occurrences.induct)
  case (1 key)
  then show ?case by simp
next
  case (2 key x xs)
  have "key x \<notin> key ` set (first_occurrences key (filter (\<lambda>y. key y \<noteq> key x) xs))"
    using first_occurrences_set [of key "filter (\<lambda>y. key y \<noteq> key x) xs"] by auto
  with 2 show ?case by simp
qed

lemma find_filter_other:
  "key t \<noteq> k \<Longrightarrow> find (\<lambda>u. key u = key t) (filter (\<lambda>y. key y \<noteq> k) xs) = find (\<lambda>u. key u = key t) xs"
  by (induction xs) auto

lemma first_occurrences_find:
  "t \<in> set (first_occurrences key xs) \<Longrightarrow> find (\<lambda>u. key u = key t) xs = Some t"
proof (induction key xs rule: first_occurrences.induct)
  case (1 key)
  then show ?case by simp
next
  case (2 key x xs)
  show ?case
  proof (cases "t = x")
    case True
    then show ?thesis by simp
  next
    case False
    with "2.prems" have mem: "t \<in> set (first_occurrences key (filter (\<lambda>y. key y \<noteq> key x) xs))"
      by simp
    then have "t \<in> set (filter (\<lambda>y. key y \<noteq> key x) xs)"
      using first_occurrences_set by fastforce
    then have ne: "key t \<noteq> key x" by simp
    from "2.IH" [OF mem] have "find (\<lambda>u. key u = key t) xs = Some t"
      using find_filter_other [of key t "key x" xs] ne by simp
    with ne show ?thesis by auto
  qed
qed

lemma valid_txns_Cons:
  "valid_txns P (t # ts) =
     (case txn_entry P t of Inr (Some x) \<Rightarrow> x # valid_txns P ts | _ \<Rightarrow> valid_txns P ts)"
  by (simp add: valid_txns_def List.map_filter_simps split: sum.splits option.splits)

lemma valid_txns_Nil: "valid_txns P [] = []"
  by (simp add: valid_txns_def List.map_filter_simps)

lemma txn_loop_char:
  "txn_loop P ts txns seen dup = Inr (out, d) \<Longrightarrow>
     out = txns @ first_occurrences (txn_key P) (filter (\<lambda>y. txn_key P y \<notin> set seen) (valid_txns P ts))
     \<and> d = (dup \<or> \<not> (distinct (map (txn_key P) (valid_txns P ts))
                       \<and> (\<forall>y \<in> set (valid_txns P ts). txn_key P y \<notin> set seen)))"
proof (induction ts arbitrary: txns seen dup)
  case Nil
  then show ?case by (simp add: valid_txns_Nil)
next
  case (Cons t ts)
  show ?case
  proof (cases "txn_entry P t")
    case (Inl e)
    with Cons.prems show ?thesis by simp
  next
    case (Inr r)
    show ?thesis
    proof (cases r)
      case None
      with Inr Cons.prems have "txn_loop P ts txns seen dup = Inr (out, d)" by simp
      from Cons.IH [OF this] show ?thesis
        using Inr None by (simp add: valid_txns_Cons)
    next
      case (Some x)
      have v: "valid_txns P (t # ts) = x # valid_txns P ts"
        using Inr Some by (simp add: valid_txns_Cons)
      show ?thesis
      proof (cases "txn_key P x \<in> set seen")
        case True
        with Inr Some Cons.prems have "txn_loop P ts txns seen True = Inr (out, d)" by simp
        from Cons.IH [OF this] show ?thesis
          using True by (simp add: v)
      next
        case False
        with Inr Some Cons.prems
        have "txn_loop P ts (txns @ [x]) (txn_key P x # seen) dup = Inr (out, d)" by simp
        from Cons.IH [OF this]
        have o: "out = (txns @ [x]) @ first_occurrences (txn_key P)
                   (filter (\<lambda>y. txn_key P y \<notin> set (txn_key P x # seen)) (valid_txns P ts))"
          and dd: "d = (dup \<or> \<not> (distinct (map (txn_key P) (valid_txns P ts))
                     \<and> (\<forall>y \<in> set (valid_txns P ts). txn_key P y \<notin> set (txn_key P x # seen))))"
          by simp_all
        have f: "filter (\<lambda>y. txn_key P y \<notin> set (txn_key P x # seen)) (valid_txns P ts)
                 = filter (\<lambda>y. txn_key P y \<noteq> txn_key P x)
                     (filter (\<lambda>y. txn_key P y \<notin> set seen) (valid_txns P ts))"
          by (auto intro: filter_cong)
        from o f False have "out = txns @ first_occurrences (txn_key P)
            (filter (\<lambda>y. txn_key P y \<notin> set seen) (valid_txns P (t # ts)))"
          by (simp add: v)
        moreover from dd False have "d = (dup \<or> \<not> (distinct (map (txn_key P) (valid_txns P (t # ts)))
                       \<and> (\<forall>y \<in> set (valid_txns P (t # ts)). txn_key P y \<notin> set seen)))"
          by (simp add: v image_iff) metis
        ultimately show ?thesis by simp
      qed
    qed
  qed
qed

lemma txn_loop_start:
  assumes "txn_loop P ts [] [] False = Inr (out, d)"
  shows "out = first_occurrences (txn_key P) (valid_txns P ts)"
    and "d = (\<not> distinct (map (txn_key P) (valid_txns P ts)))"
  using txn_loop_char [OF assms] by simp_all

lemma post_process_extracted_Inr:
  assumes "post_process_extracted P x q = Inr (f, q')"
  shows "\<exists>ts out dup.
           iterate (raw_txns P x) = Inr ts
           \<and> txn_loop P ts [] [] False = Inr (out, dup)
           \<and> Transactions f = sort_key date out
           \<and> duplicate_entries q' = dup"
  using assms
  by (auto simp add: post_process_extracted_def raw_txns_def Let_def
      split: sum.splits json.splits prod.splits)

subsection \<open>What a match of a date pattern captures\<close>











subsection \<open>Digits, padding and the canonical date\<close>












text \<open>The digits of the pattern may be any decimal digits: with the Arabic-Indic digit five
  U+0665 for the last digit of the day, \<^verbatim>\<open>int\<close> reads its value and the format writes \<^verbatim>\<open>15\<close>.\<close>

lemma unicode_digit_date:
  assumes "unicode_decimal P 0x665 = Some 5"
  shows "normalize_date_str P (ascii ''2025-01-1'' @ [0x665]) = ascii ''2025-01-15''"
  using assms
  by (simp add: normalize_date_str_def search_def search_from.simps DATE_GUESS_def date_sep_def
      run.simps is_digit_def digit_val_def ascii_def Let_def m_group_def slice_def group_truthy_def
      py_int_def format_0d_def zero_pad_def digits_of.simps digit_char_def)

subsection \<open>Cleaning an amount\<close>

lemma search_from_start:
  "search_from P r s p = Some (st, e, cs) \<Longrightarrow> p \<le> st"
proof (induction P r s p rule: search_from.induct)
  case (1 P r s p)
  show ?case
  proof (cases "length s < p")
    case True
    with "1.prems" show ?thesis
      by (simp add: search_from.simps [of P r s p])
  next
    case False
    show ?thesis
    proof (cases "run P r s p Map.empty")
      case Nil
      with False "1.prems" have "search_from P r s (Suc p) = Some (st, e, cs)"
        by (simp add: search_from.simps [of P r s p])
      with "1.IH" [OF False Nil] show ?thesis
        by simp
    next
      case (Cons m ms)
      with False "1.prems" show ?thesis
        by (cases m) (auto simp add: search_from.simps [of P r s p])
    qed
  qed
qed

lemma cut_single:
  "cut_matches s p (finditer_from P (Rep c (Suc 0) (Some (Suc 0))) s p)
     = filter (\<lambda>x. \<not> cc_match P c x) (drop p s)"
proof (induction "length s - p" arbitrary: p)
  case 0
  then have "drop p s = []" by simp
  moreover have "search_from P (Rep c (Suc 0) (Some (Suc 0))) s p = None"
    using 0 by (simp add: search_from.simps [of _ _ s p] search_from.simps [of _ _ s "Suc p"] run_single)
  ultimately show ?case
    by (simp add: finditer_from.simps [of _ _ s p])
next
  case (Suc n)
  then have lt: "p < length s" and n: "n = length s - Suc p"
    by simp_all
  have d: "drop p s = s ! p # drop (Suc p) s"
    using lt by (simp add: Cons_nth_drop_Suc)
  let ?r = "Rep c (Suc 0) (Some (Suc 0))"
  show ?case
  proof (cases "cc_match P c (s ! p)")
    case True
    then have "search_from P ?r s p = Some (p, Suc p, Map.empty)"
      using lt by (simp add: search_from.simps [of _ _ s p] run_single)
    then have "finditer_from P ?r s p = (p, Suc p, Map.empty) # finditer_from P ?r s (Suc p)"
      by (simp add: finditer_from.simps [of _ _ s p])
    then show ?thesis
      using Suc.hyps(1) [OF n] True by (simp add: d slice_def)
  next
    case False
    have sf: "search_from P ?r s p = search_from P ?r s (Suc p)"
      using lt False by (simp add: search_from.simps [of _ _ s p] run_single)
    show ?thesis
    proof (cases "search_from P ?r s (Suc p)")
      case None
      with sf have "finditer_from P ?r s p = []" "finditer_from P ?r s (Suc p) = []"
        by (simp_all add: finditer_from.simps [of _ _ s p] finditer_from.simps [of _ _ s "Suc p"])
      with Suc.hyps(1) [OF n] False show ?thesis
        by (simp add: d)
    next
      case (Some m)
      obtain st e cs where m: "m = (st, e, cs)" by (cases m) auto
      have fi: "finditer_from P ?r s p = finditer_from P ?r s (Suc p)"
        using sf by (simp add: finditer_from.simps [of _ _ s p] finditer_from.simps [of _ _ s "Suc p"])
      have "Suc p \<le> st"
        using Some m search_from_start [of P ?r s "Suc p" st e cs] by simp
      then have "st - p = Suc (st - Suc p)"
        by simp
      then have sl: "slice s p st = s ! p # slice s (Suc p) st"
        by (simp add: slice_def d)
      have "finditer_from P ?r s (Suc p)
          = (st, e, cs) # finditer_from P ?r s (if st < e then e else Suc st)"
        using Some m by (simp add: finditer_from.simps [of _ _ s "Suc p"])
      then have "cut_matches s p (finditer_from P ?r s p)
          = s ! p # cut_matches s (Suc p) (finditer_from P ?r s (Suc p))"
        by (simp add: fi sl)
      with Suc.hyps(1) [OF n] False show ?thesis
        by (simp add: d)
    qed
  qed
qed

lemma sub_empty_NON_NUMERIC:
  "sub_empty P NON_NUMERIC s = filter (\<lambda>c. c \<in> set (ascii ''0123456789.-'')) s"
  using cut_single [of s 0 P "NoneOf (ascii ''0123456789.-'')"]
  by (simp add: sub_empty_def finditer_def NON_NUMERIC_def)

lemma run_CURRENCY_absent:
  assumes "currency_free s"
  shows "run P CURRENCY_PATTERN s p cs = []"
proof -
  have "\<not> (p < length s \<and> s ! p \<in> set currency_signs)"
    using assms nth_mem [of p s] by (auto simp add: currency_free_def disjoint_iff)
  then have "run P (Rep (OneOf currency_signs) (Suc 0) (Some (Suc 0))) s p cs = []"
    by (simp add: run_single)
  then show ?thesis
    by (simp add: CURRENCY_PATTERN_def run.simps(3))
qed

lemma search_from_absent:
  "(\<forall>p. run P r s p Map.empty = []) \<Longrightarrow> search_from P r s p = None"
proof (induction P r s p rule: search_from.induct)
  case (1 P r s p)
  show ?case
  proof (cases "length s < p")
    case True
    then show ?thesis
      by (simp add: search_from.simps [of P r s p])
  next
    case False
    from "1.prems" have nil: "run P r s p Map.empty = []"
      by simp
    from "1.IH" [OF False nil "1.prems"] show ?thesis
      using False nil by (simp add: search_from.simps [of P r s p])
  qed
qed

lemma sub_empty_CURRENCY_PATTERN:
  "currency_free s \<Longrightarrow> sub_empty P CURRENCY_PATTERN s = s"
  by (simp add: sub_empty_def finditer_def finditer_from.simps [of _ _ s 0]
      search_from_absent run_CURRENCY_absent)

lemma filter_numeric_comma:
  "filter (\<lambda>x. x \<noteq> 44 \<and> x \<in> set (ascii ''0123456789.-'')) s
     = filter (\<lambda>c. c \<in> set (ascii ''0123456789.-'')) s"
  by (rule filter_cong) (auto simp add: ascii_def)

lemma to_float_plain:
  assumes "x \<noteq> JNull" "currency_free (py_str P x)"
  shows "to_float P x = float_of_str P (filter (\<lambda>c. c \<in> set (ascii ''0123456789.-'')) (py_str P x))"
  using assms
  by (cases x) (simp_all add: to_float_def sub_empty_CURRENCY_PATTERN sub_empty_NON_NUMERIC
      filter_numeric_comma del: set_simps)

lemma to_float_None: "to_float P JNull = None"
  by (simp add: to_float_def)

subsection \<open>What the engine retains\<close>



lemma retained_subset:
  assumes "post_process_extracted P x q = Inr (f, q')"
  shows "\<exists>ts. iterate (raw_txns P x) = Inr ts
           \<and> mset (Transactions f) = mset (first_occurrences (txn_key P) (valid_txns P ts))
           \<and> duplicate_entries q' = (\<not> distinct (map (txn_key P) (valid_txns P ts)))"
proof -
  from post_process_extracted_Inr [OF assms] obtain ts out dup where
    r: "iterate (raw_txns P x) = Inr ts" "txn_loop P ts [] [] False = Inr (out, dup)"
       "Transactions f = sort_key date out" "duplicate_entries q' = dup"
    by blast
  from txn_loop_start [OF r(2)] r show ?thesis
    by simp
qed

subsection \<open>Evaluation on the concrete payloads\<close>

lemma dec_ops_simps:
  "float_of_str dec_ops = dec_parse" "str_of_float dec_ops = dec_repr"
  "float_is_zero dec_ops x = (x = Fin 0)"
  "float_literal dec_ops s = (case dec_parse (ascii s) of Some v \<Rightarrow> v | None \<Rightarrow> NaN)"
  "float_add dec_ops = dec_add" "float_div dec_ops = dec_div" "float_round dec_ops = dec_round_n"
  "float_gt dec_ops = dec_gt" "format_2f dec_ops = dec_format_2f"
  by (simp_all add: dec_ops_def)

lemmas dec_parse_eval =
  dec_parse_def is_digit09_def digits_val_def dec_round_def overflow_bound_def ascii_def

lemma dec_scale_hit:
  "0 < fuel \<Longrightarrow> q * 10 ^ k = of_int \<lfloor>q * 10 ^ k\<rfloor> \<Longrightarrow> dec_scale fuel q k = k"
  by (cases fuel) simp_all

lemma digits_of_eval:
  "digits_of 0 = ascii ''0''" "digits_of 1 = ascii ''1''" "digits_of 2 = ascii ''2''"
  "digits_of 3 = ascii ''3''" "digits_of (Suc 0) = ascii ''1''" "digits_of 2000 = ascii ''2000''"
  "digits_of 16250 = ascii ''16250''"
  by (simp_all add: digits_of.simps digit_char_def ascii_def)

lemma str_of_int_eval:
  "str_of_int 1 = ascii ''1''" "str_of_int 2 = ascii ''2''" "str_of_int 3 = ascii ''3''"
  by (simp_all add: str_of_int_def digits_of_eval)

lemma dec_repr_2000: "dec_repr (Fin (- 2000)) = ascii ''-2000.0''"
  by (simp add: dec_repr_def dec_repr_pos_def dec_scale_hit digits_of_eval strip_zeros_def
      numeral_3_eq_3 ascii_def)

lemma normalize_date_str_eval:
  "normalize_date_str P (ascii ''2025-10-05'') = ascii ''2025-10-05''"
  "normalize_date_str P (ascii ''2025-03-02'') = ascii ''2025-03-02''"
  "normalize_date_str P (ascii ''15/01/2025'') = ascii ''2025-01-15''"
  "normalize_date_str P (ascii ''2025-01-15'') = ascii ''2025-01-15''"
  "normalize_date_str P (ascii ''2025-01-01'') = ascii ''2025-01-01''"
  "normalize_date_str P (ascii ''next Friday'') = ascii ''next Friday''"
  by code_simp+

lemma search_next_Friday: "search P DATE_GUESS (ascii ''next Friday'') = None"
  by code_simp

lemma lower_eval:
  "lower P (ascii ''ATM WITHDRAWAL'') = ascii ''atm withdrawal''"
  "lower P (ascii ''atm withdrawal'') = ascii ''atm withdrawal''"
  "lower P (ascii ''a'') = ascii ''a''" "lower P (ascii ''b'') = ascii ''b''"
  "lower P (ascii ''c'') = ascii ''c''" "lower P (ascii ''Rent'') = ascii ''rent''"
  "lower P (ascii ''Fee waiver'') = ascii ''fee waiver''"
  "lower P (ascii ''Salary Credit'') = ascii ''salary credit''"
  by code_simp+

lemma strip_eval:
  "strip P (ascii ''ATM WITHDRAWAL'') = ascii ''ATM WITHDRAWAL''"
  "strip P (ascii ''atm withdrawal'') = ascii ''atm withdrawal''"
  "strip P (ascii ''a'') = ascii ''a''" "strip P (ascii ''b'') = ascii ''b''"
  "strip P (ascii ''c'') = ascii ''c''" "strip P (ascii ''Rent'') = ascii ''Rent''"
  "strip P (ascii ''Fee waiver'') = ascii ''Fee waiver''" "strip P (ascii ''x'') = ascii ''x''"
  "strip P (slice scenario_D 0 31) = scenario_D"
  by code_simp+

lemma date_order:
  "ascii ''2025-01-15'' \<le> ascii ''2025-03-02''" "\<not> ascii ''2025-03-02'' \<le> ascii ''2025-01-15''"
  by (simp_all add: ascii_def)

lemma digits_val_nines:
  "foldl (\<lambda>a c. 10 * a + (c - 48)) (a :: nat) (replicate n 57) + 1 = (a + 1) * 10 ^ n"
proof (induction n arbitrary: a)
  case 0
  then show ?case by simp
next
  case (Suc n)
  from Suc [of "10 * a + 9"] show ?case
    by (simp add: algebra_simps)
qed

lemma dec_parse_nines:
  "dec_parse (replicate 309 57) = Some PInf"
proof -
  have d: "is_digit09 57"
    by (simp add: is_digit09_def)
  have r: "replicate 309 57 = (57 :: nat) # replicate 308 57"
    by (simp add: replicate_Suc [symmetric] del: replicate_Suc)
  have neg: "(case replicate 309 57 of [] \<Rightarrow> False | c # cs \<Rightarrow> c = (45 :: nat)) = False"
    by (simp add: r)
  have "foldl (\<lambda>a c. 10 * a + (c - 48)) (0 :: nat) (replicate 309 57) + 1 = 10 ^ 309"
    using digits_val_nines [of 0 309] by simp
  then have "digits_val (replicate 309 57) = 10 ^ 309 - 1"
    by (simp add: digits_val_def)
  then have v: "rat_of_nat (digits_val (replicate 309 57)) = 10 ^ 309 - 1"
    by (simp add: of_nat_diff)
  have t: "takeWhile is_digit09 (replicate 309 57) = replicate 309 57"
    using d by simp
  show ?thesis
    unfolding dec_parse_def Let_def neg
    by (simp add: t v d dec_round_def overflow_bound_def)
qed

lemma to_float_eval:
  "to_float dec_ops (JStr (ascii ''-2,000.00'')) = Some (Fin (- 2000))"
  "to_float dec_ops (JFloat (Fin (- 2000))) = Some (Fin (- 2000))"
  "to_float dec_ops (JInt 1) = Some (Fin 1)"
  "to_float dec_ops (JInt 2) = Some (Fin 2)"
  "to_float dec_ops (JInt 3) = Some (Fin 3)"
  "to_float dec_ops (JStr (ascii ''0.00'')) = Some (Fin 0)"
  "to_float dec_ops (JStr (ascii ''100'')) = Some (Fin 100)"
  "to_float dec_ops (JStr (ascii ''5'')) = Some (Fin 5)"
  by (simp_all add: to_float_plain py_str_def currency_free_def currency_signs_def rupee_def
      dec_ops_simps dec_repr_2000 str_of_int_eval dec_parse_eval Let_def)

lemma to_float_nines: "to_float dec_ops (JStr (replicate 309 57)) = Some PInf"
  by (simp add: to_float_plain py_str_def currency_free_def currency_signs_def rupee_def
      filter_replicate dec_ops_simps dec_parse_nines ascii_def)

lemmas entry_eval =
  txn_entry_def dict_get_def py_or_def normalize_date_def normalize_date_str_eval py_str_def
  strip_eval to_float_eval to_float_nines to_float_None dec_ops_simps(3) Let_def txn_of_def
  atm_withdrawal_def

lemmas engine_eval =
  post_process_extracted_def coerce_extracted_def dict_get_def py_or_def is_dict_def iterate_def
  txn_key_def lower_eval mask_account_def to_float_None Let_def
  no_account_info_def no_summary_values_def txn_of_def atm_withdrawal_def fields_of_def
  quality_of_def

lemma entries_A:
  "txn_entry dec_ops
     (JObj [(ascii ''date'', JStr (ascii ''2025-10-05'')),
            (ascii ''description'', JStr (ascii ''ATM WITHDRAWAL'')),
            (ascii ''amount'', JStr (ascii ''-2,000.00''))])
   = Inr (Some atm_withdrawal)"
  "txn_entry dec_ops
     (JObj [(ascii ''date'', JStr (ascii ''2025-10-05'')),
            (ascii ''description'', JStr (ascii ''atm withdrawal'')),
            (ascii ''amount'', JFloat (Fin (- 2000)))])
   = Inr (Some (txn_of ''2025-10-05'' ''atm withdrawal'' (Fin (- 2000))))"
  by (simp_all add: entry_eval)

lemma scenario_A_result:
  "post_process_extracted dec_ops scenario_A new_quality =
     Inr (fields_of [atm_withdrawal], quality_of True [''opening_balance'', ''closing_balance''])"
  by (simp add: scenario_A_def engine_eval entries_A)

lemma entries_U:
  "txn_entry dec_ops
     (JObj [(ascii ''date'', JStr (ascii ''2025-03-02'')), (ascii ''description'', JStr (ascii ''b'')),
            (ascii ''amount'', JInt 1)])
   = Inr (Some (txn_of ''2025-03-02'' ''b'' (Fin 1)))"
  "txn_entry dec_ops
     (JObj [(ascii ''date'', JStr (ascii ''15/01/2025'')), (ascii ''description'', JStr (ascii ''a'')),
            (ascii ''amount'', JInt 2)])
   = Inr (Some (txn_of ''2025-01-15'' ''a'' (Fin 2)))"
  "txn_entry dec_ops
     (JObj [(ascii ''date'', JStr (ascii ''2025-03-02'')), (ascii ''description'', JStr (ascii ''c'')),
            (ascii ''amount'', JInt 3)])
   = Inr (Some (txn_of ''2025-03-02'' ''c'' (Fin 3)))"
  by (simp_all add: entry_eval)

lemma unordered_result:
  "post_process_extracted dec_ops unordered_payload new_quality =
     Inr (fields_of [txn_of ''2025-01-15'' ''a'' (Fin 2), txn_of ''2025-03-02'' ''b'' (Fin 1),
                     txn_of ''2025-03-02'' ''c'' (Fin 3)],
          quality_of False [''opening_balance'', ''closing_balance''])"
  by (simp add: unordered_payload_def engine_eval entries_U date_order)



lemma numeric_date_result:
  "post_process_extracted dec_ops numeric_date_payload new_quality = Inl TypeError"
  by (simp add: numeric_date_payload_def engine_eval txn_entry_def normalize_date_def)

lemma entry_zero:
  "txn_entry dec_ops
     (JObj [(ascii ''date'', JStr (ascii ''2025-01-01'')),
            (ascii ''description'', JStr (ascii ''Fee waiver'')),
            (ascii ''amount'', JStr (ascii ''0.00''))])
   = Inr (Some (txn_of ''2025-01-01'' ''Fee waiver'' (Fin 0)))"
  "txn_entry dec_ops
     (JObj [(ascii ''date'', JStr (ascii ''2025-01-01'')),
            (ascii ''description'', JStr (ascii ''Fee waiver'')),
            (ascii ''amount'', JFloat (Fin 0)), (ascii ''balance'', JNull),
            (ascii ''category'', JNull)])
   = Inr None"
  by (simp_all add: entry_eval)

lemma zero_amount_first:
  "post_process_extracted dec_ops zero_amount_payload new_quality =
     Inr (fields_of [txn_of ''2025-01-01'' ''Fee waiver'' (Fin 0)],
          quality_of False [''opening_balance'', ''closing_balance''])"
  by (simp add: zero_amount_payload_def engine_eval entry_zero)

lemma zero_amount_second:
  "post_process_extracted dec_ops
     (json_of_fields (fields_of [txn_of ''2025-01-01'' ''Fee waiver'' (Fin 0)])) new_quality =
     Inr (fields_of [],
          quality_of False [''transactions'', ''opening_balance'', ''closing_balance''])"
  by (simp add: json_of_fields_def json_of_txn_def json_of_float_def engine_eval entry_zero)

lemma zero_debits_result:
  "post_process_extracted dec_ops zero_debits_payload new_quality =
     Inr (zero_debits_fields,
          quality_of False [''transactions'', ''opening_balance'', ''closing_balance''])"
  by (simp add: zero_debits_payload_def zero_debits_fields_def engine_eval to_float_eval)

lemma matches_D:
  "map (\<lambda>(st, e, cs). (st, e, m_group scenario_D cs 1, m_group scenario_D cs 2))
     (finditer P TXN_LINE_RE scenario_D) = [(0, 31, Some (ascii ''2025-01-15''), Some (ascii ''5''))]"
  by code_simp

lemma scenario_D_result:
  "local_parse_text_for_txns dec_ops scenario_D =
     Inr [JObj [(ascii ''date'', JStr (ascii ''2025-01-15'')), (ascii ''description'', JStr scenario_D),
                (ascii ''amount'', JFloat (Fin 5)), (ascii ''balance'', JNull),
                (ascii ''category'', JNull)]]"
proof -
  from matches_D [of dec_ops] obtain cs where
    m: "finditer dec_ops TXN_LINE_RE scenario_D = [(0, 31, cs)]"
    and g: "m_group scenario_D cs (Suc 0) = Some (ascii ''2025-01-15'')"
      "m_group scenario_D cs 2 = Some (ascii ''5'')"
    by (cases "finditer dec_ops TXN_LINE_RE scenario_D") auto
  show ?thesis
    by (simp add: local_parse_text_for_txns_def m g json_of_group_def normalize_date_def
        normalize_date_str_eval to_float_eval strip_eval Let_def)
qed

lemma tips_differ:
  "tip_average P x \<noteq> tip_net_positive" "tip_atm n \<noteq> tip_net_positive"
  "tip_upi n \<noteq> tip_net_positive" "tip_none \<noteq> tip_net_positive"
  "tip_net_positive \<noteq> tip_average P x" "tip_net_positive \<noteq> tip_atm n"
  "tip_net_positive \<noteq> tip_upi n" "tip_net_positive \<noteq> tip_none"
  by (simp_all add: tip_average_def tip_atm_def tip_upi_def tip_none_def tip_net_positive_def
      ascii_def)

subsection \<open>Deduplication\<close>

lemma dedup_general:
  assumes a: "post_process_extracted P x q = Inr (f, q')"
  shows "distinct (map (txn_key P) (Transactions f))
     \<and> (\<exists>ts. iterate (raw_txns P x) = Inr ts
          \<and> (\<forall>t \<in> set (Transactions f).
                find (\<lambda>u. txn_key P u = txn_key P t) (valid_txns P ts) = Some t)
          \<and> (\<forall>u \<in> set (valid_txns P ts). \<exists>t \<in> set (Transactions f). txn_key P t = txn_key P u)
          \<and> duplicate_entries q' = (\<not> distinct (map (txn_key P) (valid_txns P ts))))"
proof -
  from retained_subset [OF a] obtain ts where
    ts: "iterate (raw_txns P x) = Inr ts"
    and m: "mset (Transactions f) = mset (first_occurrences (txn_key P) (valid_txns P ts))"
    and d: "duplicate_entries q' = (\<not> distinct (map (txn_key P) (valid_txns P ts)))"
    by blast
  let ?fo = "first_occurrences (txn_key P) (valid_txns P ts)"
  from m have s: "set (Transactions f) = set ?fo"
    by (rule mset_eq_setD)
  from m have "mset (map (txn_key P) (Transactions f)) = mset (map (txn_key P) ?fo)"
    by simp
  then have 1: "distinct (map (txn_key P) (Transactions f))"
    using first_occurrences_distinct [of "txn_key P" "valid_txns P ts"]
    by (metis mset_eq_imp_distinct_iff)
  have 2: "\<forall>t \<in> set (Transactions f).
      find (\<lambda>u. txn_key P u = txn_key P t) (valid_txns P ts) = Some t"
    using s first_occurrences_find by fastforce
  have 3: "\<forall>u \<in> set (valid_txns P ts). \<exists>t \<in> set (Transactions f). txn_key P t = txn_key P u"
  proof
    fix u assume "u \<in> set (valid_txns P ts)"
    then have "txn_key P u \<in> txn_key P ` set ?fo"
      by (simp add: first_occurrences_keys)
    then show "\<exists>t \<in> set (Transactions f). txn_key P t = txn_key P u"
      using s by auto
  qed
  from 1 2 3 ts d show ?thesis
    by blast
qed

lemma txn_key_fun: "txn_key P = (\<lambda>t. (date t, lower P (description t), amount t))"
  by (rule ext) (simp add: txn_key_def)

text \<open>
  Claim C1. The key of a transaction is written out: its date, its description in lower
  case (\<^verbatim>\<open>str.lower\<close>) and its amount. Whenever the engine returns, no two transactions of
  its list have the same key. Of the entries that pass the validity test, the first with a
  given key is the one retained (\<open>find\<close> gives the first element that satisfies a test),
  every key of a valid entry is the key of a retained transaction (so only later
  occurrences are dropped), and \<^verbatim>\<open>duplicate_entries\<close> is true exactly when two valid entries
  have the same key. On the payload of Scenario A exactly one transaction is retained, the
  first, and \<^verbatim>\<open>duplicate_entries\<close> is true.
\<close>

theorem dedup_first_occurrence:
  "(post_process_extracted P x q = Inr (f, q') \<longrightarrow>
      distinct (map (\<lambda>t. (date t, lower P (description t), amount t)) (Transactions f))
      \<and> (\<exists>ts. iterate (raw_txns P x) = Inr ts
           \<and> (\<forall>t \<in> set (Transactions f).
                 find (\<lambda>u. (date u, lower P (description u), amount u)
                            = (date t, lower P (description t), amount t))
                   (valid_txns P ts) = Some t)
           \<and> (\<forall>u \<in> set (valid_txns P ts). \<exists>t \<in> set (Transactions f).
                 (date t, lower P (description t), amount t)
                   = (date u, lower P (description u), amount u))
           \<and> duplicate_entries q'
               = (\<not> distinct (map (\<lambda>t. (date t, lower P (description t), amount t))
                                 (valid_txns P ts)))))
   \<and> post_process_extracted dec_ops scenario_A new_quality =
       Inr (fields_of [atm_withdrawal], quality_of True [''opening_balance'', ''closing_balance''])"
proof (rule conjI, rule impI)
  assume a: "post_process_extracted P x q = Inr (f, q')"
  from dedup_general [OF a, unfolded txn_key_fun]
  show "distinct (map (\<lambda>t. (date t, lower P (description t), amount t)) (Transactions f))
      \<and> (\<exists>ts. iterate (raw_txns P x) = Inr ts
           \<and> (\<forall>t \<in> set (Transactions f).
                 find (\<lambda>u. (date u, lower P (description u), amount u)
                            = (date t, lower P (description t), amount t))
                   (valid_txns P ts) = Some t)
           \<and> (\<forall>u \<in> set (valid_txns P ts). \<exists>t \<in> set (Transactions f).
                 (date t, lower P (description t), amount t)
                   = (date u, lower P (description u), amount u))
           \<and> duplicate_entries q'
               = (\<not> distinct (map (\<lambda>t. (date t, lower P (description t), amount t))
                                 (valid_txns P ts))))"
    by simp
next
  show "post_process_extracted dec_ops scenario_A new_quality =
       Inr (fields_of [atm_withdrawal], quality_of True [''opening_balance'', ''closing_balance''])"
    by (rule scenario_A_result)
qed

theorem dedup_first_occurrence_witness:
  "post_process_extracted dec_ops scenario_A new_quality =
     Inr (fields_of [atm_withdrawal], quality_of True [''opening_balance'', ''closing_balance''])
   \<and> distinct (map (\<lambda>t. (date t, lower dec_ops (description t), amount t))
                 (Transactions (fields_of [atm_withdrawal])))
   \<and> (\<exists>ts. iterate (raw_txns dec_ops scenario_A) = Inr ts
        \<and> length (valid_txns dec_ops ts) = 2
        \<and> duplicate_entries (quality_of True [''opening_balance'', ''closing_balance''])
            = (\<not> distinct (map (\<lambda>t. (date t, lower dec_ops (description t), amount t))
                              (valid_txns dec_ops ts))))"
proof -
  have h: "post_process_extracted dec_ops scenario_A new_quality =
     Inr (fields_of [atm_withdrawal], quality_of True [''opening_balance'', ''closing_balance''])"
    by (rule scenario_A_result)
  have ts: "iterate (raw_txns dec_ops scenario_A) =
      Inr [JObj [(ascii ''date'', JStr (ascii ''2025-10-05'')),
                 (ascii ''description'', JStr (ascii ''ATM WITHDRAWAL'')),
                 (ascii ''amount'', JStr (ascii ''-2,000.00''))],
           JObj [(ascii ''date'', JStr (ascii ''2025-10-05'')),
                 (ascii ''description'', JStr (ascii ''atm withdrawal'')),
                 (ascii ''amount'', JFloat (Fin (- 2000)))]]"
    by (simp add: raw_txns_def scenario_A_def coerce_extracted_def dict_get_def py_or_def
        iterate_def is_dict_def)
  from dedup_first_occurrence [of dec_ops scenario_A new_quality "fields_of [atm_withdrawal]"
      "quality_of True [''opening_balance'', ''closing_balance'']"] h
  show ?thesis
    by (auto simp add: ts valid_txns_Cons valid_txns_Nil entries_A)
qed

subsection \<open>Ordering\<close>

text \<open>
  Claim C5. Whenever the engine returns, the dates of its transactions are in
  non-decreasing lexicographic order, and the list is a stable rearrangement of the list
  the loop built: the same transactions, those of one date in the order of their
  insertion. The comparison of two retained dates cannot fail, both being strings, and the
  sorting step never makes the engine abort: once the loop has returned and the two
  sections are dictionaries, the engine returns, with the sorted list.
\<close>

theorem transactions_sorted_stable:
  "(post_process_extracted P x q = Inr (f, q') \<longrightarrow>
      sorted (map date (Transactions f))
      \<and> (\<exists>ts out dup. iterate (raw_txns P x) = Inr ts
            \<and> txn_loop P ts [] [] False = Inr (out, dup)
            \<and> mset (Transactions f) = mset out
            \<and> (\<forall>d. filter (\<lambda>t. date t = d) (Transactions f) = filter (\<lambda>t. date t = d) out)))
   \<and> (\<forall>ts out dup. iterate (raw_txns P x) = Inr ts \<and> txn_loop P ts [] [] False = Inr (out, dup)
         \<and> is_dict (py_or P (dict_get (coerce_extracted P x) (ascii ''Account Info'')) (JObj []))
         \<and> is_dict (py_or P (dict_get (coerce_extracted P x) (ascii ''Summary Values'')) (JObj []))
       \<longrightarrow> (\<exists>f q'. post_process_extracted P x q = Inr (f, q') \<and> Transactions f = sort_key date out))"
proof (intro conjI impI allI)
  assume a: "post_process_extracted P x q = Inr (f, q')"
  from post_process_extracted_Inr [OF a] obtain ts out dup where
    r: "iterate (raw_txns P x) = Inr ts" "txn_loop P ts [] [] False = Inr (out, dup)"
       "Transactions f = sort_key date out"
    by blast
  show "sorted (map date (Transactions f))"
    by (simp add: r(3))
  have "mset (Transactions f) = mset out"
    "\<forall>d. filter (\<lambda>t. date t = d) (Transactions f) = filter (\<lambda>t. date t = d) out"
    by (simp_all add: r(3) sort_key_stable)
  with r show "\<exists>ts out dup. iterate (raw_txns P x) = Inr ts
            \<and> txn_loop P ts [] [] False = Inr (out, dup)
            \<and> mset (Transactions f) = mset out
            \<and> (\<forall>d. filter (\<lambda>t. date t = d) (Transactions f) = filter (\<lambda>t. date t = d) out)"
    by blast
next
  fix ts out dup
  assume "iterate (raw_txns P x) = Inr ts \<and> txn_loop P ts [] [] False = Inr (out, dup)
         \<and> is_dict (py_or P (dict_get (coerce_extracted P x) (ascii ''Account Info'')) (JObj []))
         \<and> is_dict (py_or P (dict_get (coerce_extracted P x) (ascii ''Summary Values'')) (JObj []))"
  then show "\<exists>f q'. post_process_extracted P x q = Inr (f, q') \<and> Transactions f = sort_key date out"
    by (auto simp add: post_process_extracted_def raw_txns_def Let_def is_dict_def split: json.splits)
qed

theorem transactions_sorted_stable_witness:
  "post_process_extracted dec_ops unordered_payload new_quality =
     Inr (fields_of [txn_of ''2025-01-15'' ''a'' (Fin 2), txn_of ''2025-03-02'' ''b'' (Fin 1),
                     txn_of ''2025-03-02'' ''c'' (Fin 3)],
          quality_of False [''opening_balance'', ''closing_balance''])
   \<and> sorted (map date (Transactions (fields_of
         [txn_of ''2025-01-15'' ''a'' (Fin 2), txn_of ''2025-03-02'' ''b'' (Fin 1),
          txn_of ''2025-03-02'' ''c'' (Fin 3)])))
   \<and> (\<exists>ts. iterate (raw_txns dec_ops unordered_payload) = Inr ts
        \<and> txn_loop dec_ops ts [] [] False =
            Inr ([txn_of ''2025-03-02'' ''b'' (Fin 1), txn_of ''2025-01-15'' ''a'' (Fin 2),
                  txn_of ''2025-03-02'' ''c'' (Fin 3)], False))"
proof -
  let ?f = "fields_of [txn_of ''2025-01-15'' ''a'' (Fin 2), txn_of ''2025-03-02'' ''b'' (Fin 1),
                     txn_of ''2025-03-02'' ''c'' (Fin 3)]"
  let ?q = "quality_of False [''opening_balance'', ''closing_balance'']"
  have h: "post_process_extracted dec_ops unordered_payload new_quality = Inr (?f, ?q)"
    by (rule unordered_result)
  from transactions_sorted_stable [of dec_ops unordered_payload new_quality ?f ?q] h
  have s: "sorted (map date (Transactions ?f))"
    by blast
  have "iterate (raw_txns dec_ops unordered_payload) =
      Inr [JObj [(ascii ''date'', JStr (ascii ''2025-03-02'')), (ascii ''description'', JStr (ascii ''b'')),
                 (ascii ''amount'', JInt 1)],
           JObj [(ascii ''date'', JStr (ascii ''15/01/2025'')), (ascii ''description'', JStr (ascii ''a'')),
                 (ascii ''amount'', JInt 2)],
           JObj [(ascii ''date'', JStr (ascii ''2025-03-02'')), (ascii ''description'', JStr (ascii ''c'')),
                 (ascii ''amount'', JInt 3)]]"
    by (simp add: raw_txns_def unordered_payload_def coerce_extracted_def dict_get_def py_or_def
        iterate_def is_dict_def)
  moreover have "txn_loop dec_ops
      [JObj [(ascii ''date'', JStr (ascii ''2025-03-02'')), (ascii ''description'', JStr (ascii ''b'')),
             (ascii ''amount'', JInt 1)],
       JObj [(ascii ''date'', JStr (ascii ''15/01/2025'')), (ascii ''description'', JStr (ascii ''a'')),
             (ascii ''amount'', JInt 2)],
       JObj [(ascii ''date'', JStr (ascii ''2025-03-02'')), (ascii ''description'', JStr (ascii ''c'')),
             (ascii ''amount'', JInt 3)]]
      [] [] False =
      Inr ([txn_of ''2025-03-02'' ''b'' (Fin 1), txn_of ''2025-01-15'' ''a'' (Fin 2),
            txn_of ''2025-03-02'' ''c'' (Fin 3)], False)"
    by (simp add: entries_U txn_key_def txn_of_def lower_eval)
  ultimately show ?thesis
    using h s by blast
qed

subsection \<open>Dates and amounts of the retained transactions\<close>




subsection \<open>Where the engine raises\<close>

text \<open>
  Claim C2 fails on the code. A date that is a number is truthy, so \<^verbatim>\<open>_normalize_date\<close> passes
  it to \<^verbatim>\<open>DATE_GUESS.search\<close>, which raises \<^verbatim>\<open>TypeError\<close> outside the \<^verbatim>\<open>try\<close> of the function,
  and nothing in the engine catches it. The engine raises as well on an account section
  that is a string (\<^verbatim>\<open>AttributeError\<close> from \<^verbatim>\<open>acct.get\<close>) and on transactions that are a number
  (\<^verbatim>\<open>TypeError\<close> from the loop).
\<close>

theorem numeric_date_raises:
  "post_process_extracted dec_ops numeric_date_payload new_quality = Inl TypeError
   \<and> post_process_extracted dec_ops (JObj [(ascii ''Account Info'', JStr (ascii ''HDFC''))]) new_quality
       = Inl AttributeError
   \<and> post_process_extracted dec_ops (JObj [(ascii ''Transactions'', JInt 3)]) new_quality
       = Inl TypeError"
proof (intro conjI)
  show "post_process_extracted dec_ops numeric_date_payload new_quality = Inl TypeError"
    by (rule numeric_date_result)
  show "post_process_extracted dec_ops (JObj [(ascii ''Account Info'', JStr (ascii ''HDFC''))]) new_quality
       = Inl AttributeError"
    by (simp add: engine_eval)
  show "post_process_extracted dec_ops (JObj [(ascii ''Transactions'', JInt 3)]) new_quality
       = Inl TypeError"
    by (simp add: engine_eval)
qed

subsection \<open>Running the engine on its own result\<close>

text \<open>
  Claim C4 fails on the code. An entry with the amount \<^verbatim>\<open>"0.00"\<close> is retained with the amount
  \<^verbatim>\<open>0.0\<close>; when the engine reads its own result, \<^verbatim>\<open>t.get("amount") or t.get("Amount")\<close> takes
  the float \<^verbatim>\<open>0.0\<close> for absent, and the transaction is dropped.
\<close>

theorem zero_amount_dropped_on_rerun:
  "post_process_extracted dec_ops zero_amount_payload new_quality =
     Inr (fields_of [txn_of ''2025-01-01'' ''Fee waiver'' (Fin 0)],
          quality_of False [''opening_balance'', ''closing_balance''])
   \<and> post_process_extracted dec_ops
        (json_of_fields (fields_of [txn_of ''2025-01-01'' ''Fee waiver'' (Fin 0)])) new_quality =
     Inr (fields_of [],
          quality_of False [''transactions'', ''opening_balance'', ''closing_balance''])
   \<and> Transactions (fields_of [txn_of ''2025-01-01'' ''Fee waiver'' (Fin 0)])
       \<noteq> Transactions (fields_of [])"
proof (intro conjI)
  show "Transactions (fields_of [txn_of ''2025-01-01'' ''Fee waiver'' (Fin 0)])
       \<noteq> Transactions (fields_of [])"
    by (simp add: fields_of_def)
qed (rule zero_amount_first zero_amount_second)+

subsection \<open>Heuristic text extractor\<close>

lemma parse_matches_candidates:
  "\<exists>new. parse_matches P text ms txns = Inr (txns @ new)
     \<and> (\<forall>c \<in> set new. \<exists>m \<in> set ms. candidate_of P text m c)"
proof (induction ms arbitrary: txns)
  case Nil
  then show ?case by simp
next
  case (Cons m ms)
  obtain st e cs where m: "m = (st, e, cs)"
    by (cases m) auto
  have "\<exists>r. normalize_date P (json_of_group (m_group text cs 1)) = Inr r"
    by (cases "m_group text cs 1") (simp_all add: json_of_group_def normalize_date_def)
  then obtain r where r: "normalize_date P (json_of_group (m_group text cs 1)) = Inr r"
    by blast
  show ?case
  proof (cases "\<exists>d a. r = Some d \<and> d \<noteq> [] \<and> to_float P (json_of_group (m_group text cs 2)) = Some a")
    case True
    then obtain d a where da: "r = Some d" "d \<noteq> []"
      "to_float P (json_of_group (m_group text cs 2)) = Some a"
      by blast
    let ?c = "JObj [(ascii ''date'', JStr d), (ascii ''description'', JStr (strip P (slice text st e))),
                    (ascii ''amount'', JFloat a), (ascii ''balance'', JNull),
                    (ascii ''category'', JNull)]"
    from Cons.IH [of "txns @ [?c]"] obtain new where
      n: "parse_matches P text ms (txns @ [?c]) = Inr ((txns @ [?c]) @ new)"
        "\<forall>c \<in> set new. \<exists>m \<in> set ms. candidate_of P text m c"
      by blast
    have "parse_matches P text (m # ms) txns = Inr (txns @ (?c # new))"
      using r da n(1) by (simp add: m)
    moreover have "candidate_of P text m ?c"
      using r da by (simp add: candidate_of_def m)
    then have "\<forall>c \<in> set (?c # new). \<exists>m' \<in> set (m # ms). candidate_of P text m' c"
      using n(2) by auto
    ultimately show ?thesis
      by blast
  next
    case False
    then have "parse_matches P text (m # ms) txns = parse_matches P text ms txns"
      using r by (auto simp add: m Let_def split: option.splits)
    moreover from Cons.IH [of txns] obtain new where
      "parse_matches P text ms txns = Inr (txns @ new)"
      "\<forall>c \<in> set new. \<exists>m \<in> set ms. candidate_of P text m c"
      by blast
    ultimately show ?thesis
      by (metis list.set_intros(2))
  qed
qed

lemma local_parse_text_for_txns_candidates:
  "\<exists>cands. local_parse_text_for_txns P text = Inr cands
     \<and> (\<forall>c \<in> set cands. \<exists>m \<in> set (finditer P TXN_LINE_RE text). candidate_of P text m c)"
  using parse_matches_candidates [where ms = "finditer P TXN_LINE_RE text" and txns = "[]"]
  by (simp add: local_parse_text_for_txns_def)

text \<open>A candidate can carry a date that is not canonical: the group \<^verbatim>\<open>date\<close> of \<^verbatim>\<open>TXN_LINE_RE\<close>
  takes a year of two digits, in which \<^verbatim>\<open>DATE_GUESS\<close> finds no pattern, and \<^verbatim>\<open>_normalize_date\<close>
  returns the text as it is.\<close>

lemma matches_short_year:
  "map (\<lambda>(st, e, cs). (st, e, m_group short_year_text cs 1, m_group short_year_text cs 2))
     (finditer P TXN_LINE_RE short_year_text) = [(0, 12, Some (ascii ''01-02-03''), Some (ascii ''5''))]"
  by code_simp

lemma short_year_eval:
  "normalize_date_str P (ascii ''01-02-03'') = ascii ''01-02-03''"
  "strip P (slice short_year_text 0 12) = short_year_text"
  by code_simp+

lemma short_year_candidate:
  "local_parse_text_for_txns dec_ops short_year_text =
     Inr [JObj [(ascii ''date'', JStr (ascii ''01-02-03'')), (ascii ''description'', JStr short_year_text),
                (ascii ''amount'', JFloat (Fin 5)), (ascii ''balance'', JNull),
                (ascii ''category'', JNull)]]"
proof -
  from matches_short_year [of dec_ops] obtain cs where
    m: "finditer dec_ops TXN_LINE_RE short_year_text = [(0, 12, cs)]"
    and g: "m_group short_year_text cs (Suc 0) = Some (ascii ''01-02-03'')"
      "m_group short_year_text cs 2 = Some (ascii ''5'')"
    by (cases "finditer dec_ops TXN_LINE_RE short_year_text") auto
  show ?thesis
    by (simp add: local_parse_text_for_txns_def m g json_of_group_def normalize_date_def
        short_year_eval to_float_eval Let_def)
qed

text \<open>
  Claim C6 fails on the code in its first part. On the text of Scenario D the extractor
  gives one candidate with the date \<^verbatim>\<open>2025-01-15\<close>, but its amount is \<^verbatim>\<open>5.0\<close>: the greedy
  \<^verbatim>\<open>.{1,120}\<close> of \<^verbatim>\<open>TXN_LINE_RE\<close> takes everything up to the last digit of the line, and the group
  \<^verbatim>\<open>amt\<close> is left with \<^verbatim>\<open>5\<close>. (On the second part, \<open>local_parse_text_for_txns_candidates\<close>
  says what the code does: the extractor always returns, and every candidate comes from a
  match for which \<^verbatim>\<open>_normalize_date\<close> gave a non-empty date and \<^verbatim>\<open>_to_float\<close> gave a number; the
  date need not be canonical, see \<open>short_year_candidate\<close>.)
\<close>

theorem scenario_D_amount:
  "local_parse_text_for_txns dec_ops scenario_D =
     Inr [JObj [(ascii ''date'', JStr (ascii ''2025-01-15'')), (ascii ''description'', JStr scenario_D),
                (ascii ''amount'', JFloat (Fin 5)), (ascii ''balance'', JNull),
                (ascii ''category'', JNull)]]
   \<and> map (\<lambda>(st, e, cs). (st, e, m_group scenario_D cs 1, m_group scenario_D cs 2))
        (finditer dec_ops TXN_LINE_RE scenario_D)
       = [(0, 31, Some (ascii ''2025-01-15''), Some (ascii ''5''))]
   \<and> float_of_str dec_ops (ascii ''250.75'') = Some (Fin (1003 / 4))
   \<and> Fin 5 \<noteq> Fin (1003 / 4)"
proof (intro conjI)
  show "float_of_str dec_ops (ascii ''250.75'') = Some (Fin (1003 / 4))"
    by (simp add: dec_ops_simps dec_parse_eval Let_def)
  show "Fin 5 \<noteq> Fin (1003 / 4)"
    by simp
qed (rule scenario_D_result matches_D)+

subsection \<open>Insight summarizer\<close>

text \<open>
  Claim C7 fails on the code in its rule on the net inflow. The engine returns, for the
  debits \<^verbatim>\<open>"0.00"\<close>, a record in which total credits and total debits are both present, 100
  and 0.0; the credits exceed the debits; and the fallback makes no net-positive
  observation, only the placeholder: \<^verbatim>\<open>sv.get("Total debits") or 0.0\<close> and the test
  \<^verbatim>\<open>credits and debits\<close> take a total of zero for an absent one.
\<close>

theorem zero_debits_no_net_positive:
  "post_process_extracted dec_ops zero_debits_payload new_quality =
     Inr (zero_debits_fields,
          quality_of False [''transactions'', ''opening_balance'', ''closing_balance''])
   \<and> total_credits (Summary_Values zero_debits_fields) = Some (Fin 100)
   \<and> total_debits (Summary_Values zero_debits_fields) = Some (Fin 0)
   \<and> float_gt dec_ops (Fin 100) (Fin 0)
   \<and> insights_local_fallback dec_ops zero_debits_fields = [tip_none]
   \<and> tip_net_positive \<notin> set (insights_local_fallback dec_ops zero_debits_fields)"
proof -
  have "insights_local_fallback dec_ops zero_debits_fields = [tip_none]"
    by (simp add: insights_local_fallback_def zero_debits_fields_def no_summary_values_def
        float_or_def dec_ops_simps dec_parse_eval dec_gt_def Let_def)
  then show ?thesis
    by (simp add: zero_debits_result zero_debits_fields_def no_summary_values_def dec_ops_simps
        dec_gt_def tips_differ)
qed

text \<open>
  What the fallback computes, for every record: given that the literal \<^verbatim>\<open>0.0\<close> is zero, the
  observations are, in this order, the mean of the opening and closing balances rounded to
  two decimals, when both are present; the number of descriptions that contain \<^verbatim>\<open>atm\<close> in
  lower case, when it is not zero; the number of descriptions that contain \<^verbatim>\<open>upi\<close>, when it
  is not zero; the net-positive observation, when the two totals are present, neither is
  zero and the credits exceed the debits; and the placeholder alone when none of these was
  made. There are at most four observations.
\<close>

lemma insights_local_fallback_rules:
  assumes z: "float_is_zero P (float_literal P ''0.0'')"
  shows
   "(let sv = Summary_Values flds;
        atm = length (filter (\<lambda>t. contains (ascii ''atm'') (lower P (description t))) (Transactions flds));
        upi = length (filter (\<lambda>t. contains (ascii ''upi'') (lower P (description t))) (Transactions flds));
        average =
          (case (opening_balance sv, closing_balance sv) of
             (Some ob, Some cb) \<Rightarrow>
               [tip_average P
                  (float_round P (float_div P (float_add P ob cb) (float_literal P ''2.0'')) 2)]
           | _ \<Rightarrow> []);
        net =
          (case (total_credits sv, total_debits sv) of
             (Some c, Some d) \<Rightarrow>
               if \<not> float_is_zero P c \<and> \<not> float_is_zero P d \<and> float_gt P c d
               then [tip_net_positive] else []
           | _ \<Rightarrow> []);
        tips = average @ (if atm \<noteq> 0 then [tip_atm atm] else [])
                 @ (if upi \<noteq> 0 then [tip_upi upi] else []) @ net
    in insights_local_fallback P flds = (if tips = [] then [tip_none] else tips)
       \<and> length (insights_local_fallback P flds) \<le> 4)"
proof -
  let ?sv = "Summary_Values flds"
  have net: "(\<not> float_is_zero P (float_or P (total_credits ?sv) (float_literal P ''0.0''))
        \<and> \<not> float_is_zero P (float_or P (total_debits ?sv) (float_literal P ''0.0''))
        \<and> float_gt P (float_or P (total_credits ?sv) (float_literal P ''0.0''))
             (float_or P (total_debits ?sv) (float_literal P ''0.0'')))
     \<longleftrightarrow> (case (total_credits ?sv, total_debits ?sv) of
             (Some c, Some d) \<Rightarrow> \<not> float_is_zero P c \<and> \<not> float_is_zero P d \<and> float_gt P c d
           | _ \<Rightarrow> False)"
    using z by (auto simp add: float_or_def split: option.splits)
  show ?thesis
    unfolding insights_local_fallback_def Let_def net
    by (auto split: option.splits)
qed

end
